theory Spec2Isabelle
  imports Complex_Main "HOL-Library.AList" "HOL-Library.Code_Target_Nat"
begin

section \<open>JavaScript strings\<close>

text \<open>
  A JavaScript string is a sequence of UTF-16 code units; the phrase lists of the error
  classifier contain Cyrillic text, so a string is modelled as the list of its code units.
  \<open>ascii\<close> embeds an ASCII literal of the source.
\<close>

type_synonym jsstring = "nat list"

definition ascii :: "string \<Rightarrow> jsstring" where
  "ascii s = map of_char s"

text \<open>\<^verbatim>\<open>String.prototype.startsWith\<close> and \<^verbatim>\<open>String.prototype.includes\<close>.\<close>

fun startsWith :: "jsstring \<Rightarrow> jsstring \<Rightarrow> bool" where
  "startsWith s [] = True"
| "startsWith [] (p # ps) = False"
| "startsWith (c # cs) (p # ps) = (c = p \<and> startsWith cs ps)"

fun str_includes :: "jsstring \<Rightarrow> jsstring \<Rightarrow> bool" where
  "str_includes [] p = (p = [])"
| "str_includes (c # cs) p = (startsWith (c # cs) p \<or> str_includes cs p)"

text \<open>
  \<^verbatim>\<open>String.prototype.toLowerCase\<close>, code unit by code unit, on the alphabets the
  messages of this program are written in: Basic Latin, Latin-1 and Cyrillic; and on the
  letters of other blocks whose lower case lies in these alphabets: the dotted capital I
  (two code units in lower case), the Kelvin sign and the Angstrom sign. The lower case
  of every other letter lies outside the alphabets of the phrase lists, and such a code
  unit is left as it is.
\<close>

definition lower_unit :: "nat \<Rightarrow> nat list" where
  "lower_unit c =
     (if 0x41 \<le> c \<and> c \<le> 0x5A then [c + 0x20]
      else if 0xC0 \<le> c \<and> c \<le> 0xDE \<and> c \<noteq> 0xD7 then [c + 0x20]
      else if 0x400 \<le> c \<and> c \<le> 0x40F then [c + 0x50]
      else if 0x410 \<le> c \<and> c \<le> 0x42F then [c + 0x20]
      else if c = 0x130 then [0x69, 0x307]
      else if c = 0x212A then [0x6B]
      else if c = 0x212B then [0xE5]
      else [c])"

definition toLowerCase :: "jsstring \<Rightarrow> jsstring" where
  "toLowerCase s = concat (map lower_unit s)"

section \<open>The error classifier: \<^verbatim>\<open>src/utils/errorMessages.ts\<close>\<close>

subsection \<open>The Russian phrases of the classifier\<close>

text \<open>Each constant is the code-unit sequence of one Cyrillic literal of the source,
  named by its transliteration.\<close>

definition ru_autentifikac :: jsstring where
  "ru_autentifikac =
     [0x430, 0x443, 0x442, 0x435, 0x43d, 0x442, 0x438, 0x444, 0x438, 0x43a, 0x430, 0x446]"

definition ru_klyuch :: jsstring where
  "ru_klyuch = [0x43a, 0x43b, 0x44e, 0x447]"

definition ru_nevern :: jsstring where
  "ru_nevern = [0x43d, 0x435, 0x432, 0x435, 0x440, 0x43d]"

definition ru_ne_podoshel :: jsstring where
  "ru_ne_podoshel = [0x43d, 0x435, 0x20, 0x43f, 0x43e, 0x434, 0x43e, 0x448, 0x435, 0x43b]"

definition ru_ne_najden :: jsstring where
  "ru_ne_najden = [0x43d, 0x435, 0x20, 0x43d, 0x430, 0x439, 0x434, 0x435, 0x43d]"

definition ru_fajl_klyucha_ne_najden :: jsstring where
  "ru_fajl_klyucha_ne_najden =
     [0x444, 0x430, 0x439, 0x43b, 0x20, 0x43a, 0x43b, 0x44e, 0x447, 0x430, 0x20,
      0x43d, 0x435, 0x20, 0x43d, 0x430, 0x439, 0x434, 0x435, 0x43d]"

definition ru_parol :: jsstring where
  "ru_parol = [0x43f, 0x430, 0x440, 0x43e, 0x43b]"

definition ru_polzovatel :: jsstring where
  "ru_polzovatel =
     [0x43f, 0x43e, 0x43b, 0x44c, 0x437, 0x43e, 0x432, 0x430, 0x442, 0x435, 0x43b]"

definition ru_validac :: jsstring where
  "ru_validac = [0x432, 0x430, 0x43b, 0x438, 0x434, 0x430, 0x446]"

definition ru_bezopasnost :: jsstring where
  "ru_bezopasnost =
     [0x431, 0x435, 0x437, 0x43e, 0x43f, 0x430, 0x441, 0x43d, 0x43e, 0x441, 0x442]"

definition ru_nevernyj_format :: jsstring where
  "ru_nevernyj_format =
     [0x43d, 0x435, 0x432, 0x435, 0x440, 0x43d, 0x44b, 0x439, 0x20,
      0x444, 0x43e, 0x440, 0x43c, 0x430, 0x442]"

definition ru_nevernaya_konfiguraciya :: jsstring where
  "ru_nevernaya_konfiguraciya =
     [0x43d, 0x435, 0x432, 0x435, 0x440, 0x43d, 0x430, 0x44f, 0x20, 0x43a, 0x43e, 0x43d,
      0x444, 0x438, 0x433, 0x443, 0x440, 0x430, 0x446, 0x438, 0x44f]"

definition ru_podklyuch :: jsstring where
  "ru_podklyuch = [0x43f, 0x43e, 0x434, 0x43a, 0x43b, 0x44e, 0x447]"

definition ru_tajmaut :: jsstring where
  "ru_tajmaut = [0x442, 0x430, 0x439, 0x43c, 0x430, 0x443, 0x442]"

definition ru_otkloneno :: jsstring where
  "ru_otkloneno = [0x43e, 0x442, 0x43a, 0x43b, 0x43e, 0x43d, 0x435, 0x43d, 0x43e]"

definition ru_net_marshruta :: jsstring where
  "ru_net_marshruta =
     [0x43d, 0x435, 0x442, 0x20, 0x43c, 0x430, 0x440, 0x448, 0x440, 0x443, 0x442, 0x430]"

definition ru_set :: jsstring where
  "ru_set = [0x441, 0x435, 0x442, 0x44c]"

definition ru_vypolnen :: jsstring where
  "ru_vypolnen = [0x432, 0x44b, 0x43f, 0x43e, 0x43b, 0x43d, 0x435, 0x43d]"

definition ru_otmeneno :: jsstring where
  "ru_otmeneno = [0x43e, 0x442, 0x43c, 0x435, 0x43d, 0x435, 0x43d, 0x43e]"

definition ru_otmenen :: jsstring where
  "ru_otmenen = [0x43e, 0x442, 0x43c, 0x435, 0x43d, 0x435, 0x43d]"

subsection \<open>The conditions of \<^verbatim>\<open>isRetryableError\<close>\<close>

text \<open>
  One predicate for the condition of each top-level \<^verbatim>\<open>if\<close> of the function, in the
  order of the source; the argument is \<^verbatim>\<open>errorLower\<close>. In JavaScript \<^verbatim>\<open>&&\<close>
  binds tighter than \<^verbatim>\<open>||\<close>.
\<close>

definition is_authentication_error :: "jsstring \<Rightarrow> bool" where
  "is_authentication_error errorLower \<longleftrightarrow>
     str_includes errorLower (ascii ''authentication'') \<or>
     str_includes errorLower ru_autentifikac \<or>
     str_includes errorLower (ascii ''permission denied'')"

definition is_validation_error :: "jsstring \<Rightarrow> bool" where
  "is_validation_error errorLower \<longleftrightarrow>
     str_includes errorLower ru_validac \<or>
     str_includes errorLower (ascii ''validation'') \<or>
     str_includes errorLower ru_bezopasnost \<or>
     str_includes errorLower (ascii ''dangerous'')"

definition is_key_file_error :: "jsstring \<Rightarrow> bool" where
  "is_key_file_error errorLower \<longleftrightarrow>
     str_includes errorLower (ascii ''key file not found'') \<or>
     str_includes errorLower ru_fajl_klyucha_ne_najden \<or>
     (str_includes errorLower (ascii ''key path'') \<and>
      str_includes errorLower (ascii ''not found''))"

definition is_format_error :: "jsstring \<Rightarrow> bool" where
  "is_format_error errorLower \<longleftrightarrow>
     str_includes errorLower (ascii ''invalid format'') \<or>
     str_includes errorLower ru_nevernyj_format \<or>
     str_includes errorLower (ascii ''invalid configuration'') \<or>
     str_includes errorLower ru_nevernaya_konfiguraciya"

definition is_connection_error :: "jsstring \<Rightarrow> bool" where
  "is_connection_error errorLower \<longleftrightarrow>
     str_includes errorLower (ascii ''connection'') \<or>
     str_includes errorLower ru_podklyuch"

definition is_network_error :: "jsstring \<Rightarrow> bool" where
  "is_network_error errorLower \<longleftrightarrow>
     str_includes errorLower (ascii ''network'') \<or>
     str_includes errorLower ru_set \<or>
     str_includes errorLower (ascii ''dns'') \<or>
     str_includes errorLower (ascii ''resolve'')"

definition is_command_execution_error :: "jsstring \<Rightarrow> bool" where
  "is_command_execution_error errorLower \<longleftrightarrow>
     str_includes errorLower (ascii ''execute'') \<or>
     str_includes errorLower ru_vypolnen \<or>
     (str_includes errorLower (ascii ''command'') \<and>
      str_includes errorLower (ascii ''error''))"

subsection \<open>\<^verbatim>\<open>isRetryableError\<close>\<close>

text \<open>
  The parameter has the TypeScript type \<^verbatim>\<open>string | null | undefined\<close>. The guard
  \<^verbatim>\<open>if (!error) return false\<close> takes \<^verbatim>\<open>undefined\<close>, \<^verbatim>\<open>null\<close> and the empty
  string. Every early \<^verbatim>\<open>return\<close> of the source is one branch below; an inner
  \<^verbatim>\<open>if\<close> without \<^verbatim>\<open>else\<close> falls through to the next test.
\<close>

datatype string_or_nullish = Undefined | Null | Str jsstring

fun isRetryableError :: "string_or_nullish \<Rightarrow> bool" where
  "isRetryableError Undefined = False"
| "isRetryableError Null = False"
| "isRetryableError (Str error) =
     (if error = [] then False
      else
        let errorLower = toLowerCase error in
        if is_authentication_error errorLower then
          (if (str_includes errorLower (ascii ''key'') \<or> str_includes errorLower ru_klyuch) \<and>
              (str_includes errorLower (ascii ''invalid'') \<or>
               str_includes errorLower ru_nevern \<or>
               str_includes errorLower (ascii ''combination invalid'') \<or>
               str_includes errorLower ru_ne_podoshel \<or>
               str_includes errorLower (ascii ''not found'') \<or>
               str_includes errorLower ru_ne_najden \<or>
               str_includes errorLower (ascii ''file not found'') \<or>
               str_includes errorLower ru_fajl_klyucha_ne_najden)
           then False
           else if str_includes errorLower (ascii ''password'') \<or>
                   str_includes errorLower ru_parol
           then False
           else if str_includes errorLower (ascii ''username'') \<or>
                   str_includes errorLower ru_polzovatel \<or>
                   (str_includes errorLower (ascii ''user'') \<and>
                    str_includes errorLower (ascii ''invalid''))
           then False
           else False)
        else if is_validation_error errorLower then False
        else if is_key_file_error errorLower then False
        else if is_format_error errorLower then False
        else if is_connection_error errorLower then
          (if str_includes errorLower (ascii ''timeout'') \<or>
              str_includes errorLower ru_tajmaut
           then True
           else if str_includes errorLower (ascii ''refused'') \<or>
                   str_includes errorLower ru_otkloneno
           then True
           else if str_includes errorLower (ascii ''no route'') \<or>
                   str_includes errorLower ru_net_marshruta
           then True
           else True)
        else if is_network_error errorLower then True
        else if is_command_execution_error errorLower then False
        else True)"

declare isRetryableError.simps [simp del]

text \<open>A message matches a known category when the condition of one of the top-level
  tests of the function holds of it.\<close>

definition matches_known_category :: "jsstring \<Rightarrow> bool" where
  "matches_known_category errorLower \<longleftrightarrow>
     is_authentication_error errorLower \<or> is_validation_error errorLower \<or>
     is_key_file_error errorLower \<or> is_format_error errorLower \<or>
     is_connection_error errorLower \<or> is_network_error errorLower \<or>
     is_command_execution_error errorLower"

section \<open>Batch results and retry timers: \<^verbatim>\<open>src/pages/Workspace.tsx\<close>\<close>

subsection \<open>The records of \<^verbatim>\<open>src/types\<close>\<close>

text \<open>
  \<^verbatim>\<open>CommandResult\<close> and \<^verbatim>\<open>BatchCommandResult\<close>, field by field; an optional field
  (\<^verbatim>\<open>?:\<close>) and a nullable one (\<^verbatim>\<open>| null\<close>) are options.
\<close>

record command_result =
  stdout :: jsstring
  stderr :: jsstring
  exit_status :: int
  cr_host :: jsstring
  vehicle_id :: "jsstring option"
  cr_timestamp :: "jsstring option"
  cr_command :: "jsstring option"

record batch_command_result =
  result :: "command_result option"
  error :: "jsstring option"
  host :: jsstring
  timestamp :: "jsstring option"

subsection \<open>State updates of the workspace page\<close>

text \<open>
  The retry logic lives in three pieces of React state, declared in this order:
  \<^verbatim>\<open>batchExecuting\<close>, \<^verbatim>\<open>retryTimers\<close> and \<^verbatim>\<open>retryAttempts\<close>. A call of a state
  setter does not change the state: it puts the value or updater function on the queue of
  its hook, and React applies the queued updates, in order, when it next renders the
  component. A setter that is called from inside an updater is therefore called during
  that render.

  A JavaScript \<^verbatim>\<open>Map\<close> keeps its keys in insertion order, so it is an association
  list: \<^verbatim>\<open>set\<close> is \<open>AList.update\<close>, \<^verbatim>\<open>delete\<close> is \<open>AList.delete\<close>,
  \<^verbatim>\<open>get\<close> is \<open>map_of\<close> and \<^verbatim>\<open>new Map()\<close> is the empty list.
\<close>

text \<open>\<^verbatim>\<open>prevAttempts.get(host) || 0\<close>: the attempt counter of a host, \<open>0\<close> for a host
  without one.\<close>

definition attempts_of :: "(jsstring \<times> int) list \<Rightarrow> jsstring \<Rightarrow> int" where
  "attempts_of prevAttempts h = (case map_of prevAttempts h of None \<Rightarrow> 0 | Some n \<Rightarrow> n)"

text \<open>
  The arguments the page passes to \<^verbatim>\<open>setRetryTimers\<close>: the updater that sets the
  timer of a host to the retry interval, the updater that deletes the timer of a host,
  \<^verbatim>\<open>new Map()\<close>, and the updater of the one-second countdown.
\<close>

datatype timers_update =
    TimersSetHost jsstring int
  | TimersDeleteHost jsstring
  | TimersClear
  | TimersCountdown

text \<open>
  The arguments of \<^verbatim>\<open>setRetryAttempts\<close>: \<^verbatim>\<open>new Map()\<close>, and the updater of the
  listener that checks the attempt limit; it closes over \<^verbatim>\<open>result.host\<close>,
  \<^verbatim>\<open>currentRetryInterval\<close> and the \<^verbatim>\<open>retryMaxAttempts\<close> of \<^verbatim>\<open>currentSettings\<close>.
\<close>

datatype attempts_update =
    AttemptsClear
  | AttemptsCheck jsstring int int

text \<open>
  The arguments of \<^verbatim>\<open>setBatchExecuting\<close>: a boolean, and the updater inside the
  attempt check that starts the timer if the batch is still executing; it closes over
  \<^verbatim>\<open>result.host\<close> and \<^verbatim>\<open>currentRetryInterval\<close>.
\<close>

datatype executing_update =
    ExecutingSet bool
  | ExecutingProbe jsstring int

text \<open>A call of one of the three setters.\<close>

datatype dispatch =
    ToExecuting executing_update
  | ToTimers timers_update
  | ToAttempts attempts_update

text \<open>
  What each update does when React applies it to the state of its hook. The timer updaters
  call no setter. In the countdown an expired timer stays in the map.
\<close>

fun apply_timers_update ::
  "timers_update \<Rightarrow> (jsstring \<times> int) list \<Rightarrow> (jsstring \<times> int) list"
where
  "apply_timers_update (TimersSetHost h currentRetryInterval) prevTimers =
     AList.update h currentRetryInterval prevTimers"
| "apply_timers_update (TimersDeleteHost h) prev = AList.delete h prev"
| "apply_timers_update TimersClear prev = []"
| "apply_timers_update TimersCountdown prev =
     map (\<lambda>(h, timeLeft). (h, if timeLeft > 0 then timeLeft - 1 else timeLeft)) prev"

text \<open>
  The attempt check returns the new counters and calls \<^verbatim>\<open>setBatchExecuting\<close> (limit not
  reached) or \<^verbatim>\<open>setRetryTimers\<close> (limit reached); the calls it makes are the second
  component.
\<close>

fun apply_attempts_update ::
  "attempts_update \<Rightarrow> (jsstring \<times> int) list \<Rightarrow> (jsstring \<times> int) list \<times> dispatch list"
where
  "apply_attempts_update AttemptsClear prevAttempts = ([], [])"
| "apply_attempts_update (AttemptsCheck h currentRetryInterval retryMaxAttemptsNow) prevAttempts =
     (let currentAttempts = attempts_of prevAttempts h;
          maxAttempts = retryMaxAttemptsNow
      in
      if maxAttempts = 0 \<or> currentAttempts < maxAttempts then
        (AList.update h (currentAttempts + 1) prevAttempts,
         [ToExecuting (ExecutingProbe h currentRetryInterval)])
      else
        (prevAttempts, [ToTimers (TimersDeleteHost h)]))"

fun apply_executing_update :: "executing_update \<Rightarrow> bool \<Rightarrow> bool \<times> dispatch list" where
  "apply_executing_update (ExecutingSet b) prevExecuting = (b, [])"
| "apply_executing_update (ExecutingProbe h currentRetryInterval) prevExecuting =
     (prevExecuting,
      if prevExecuting then [ToTimers (TimersSetHost h currentRetryInterval)] else [])"

text \<open>Applying a queue of updates in order, collecting the setter calls they make.\<close>

fun apply_queue ::
  "('u \<Rightarrow> 'a \<Rightarrow> 'a \<times> dispatch list) \<Rightarrow> 'u list \<Rightarrow> 'a \<Rightarrow> 'a \<times> dispatch list"
where
  "apply_queue f [] a = (a, [])"
| "apply_queue f (u # us) a =
     (case f u a of
        (a', calls) \<Rightarrow> (case apply_queue f us a' of (a'', calls') \<Rightarrow> (a'', calls @ calls')))"

subsection \<open>The workspace page\<close>

text \<open>
  The rendered values of the three hooks, the updates queued on each, and whether the
  \<^verbatim>\<open>batch-result\<close> listener is subscribed (\<^verbatim>\<open>unlistenResultRef.current\<close> is set). A run
  of the page may start in any state: a page restored at mount starts in the restored one.
\<close>

record workspace_state =
  batchExecuting :: bool
  retryTimers :: "(jsstring \<times> int) list"
  retryAttempts :: "(jsstring \<times> int) list"
  executingQueue :: "executing_update list"
  timersQueue :: "timers_update list"
  attemptsQueue :: "attempts_update list"
  listening :: bool

text \<open>The calls in a list that go to one setter.\<close>

fun to_executing :: "dispatch \<Rightarrow> executing_update list" where
  "to_executing (ToExecuting u) = [u]"
| "to_executing _ = []"

fun to_timers :: "dispatch \<Rightarrow> timers_update list" where
  "to_timers (ToTimers u) = [u]"
| "to_timers _ = []"

fun to_attempts :: "dispatch \<Rightarrow> attempts_update list" where
  "to_attempts (ToAttempts u) = [u]"
| "to_attempts _ = []"

text \<open>A sequence of setter calls: each puts its update at the end of the queue of its
  hook.\<close>

definition enqueue_all :: "dispatch list \<Rightarrow> workspace_state \<Rightarrow> workspace_state" where
  "enqueue_all calls s =
     s\<lparr>executingQueue := executingQueue s @ concat (map to_executing calls),
       timersQueue := timersQueue s @ concat (map to_timers calls),
       attemptsQueue := attemptsQueue s @ concat (map to_attempts calls)\<rparr>"

text \<open>The fields of \<^verbatim>\<open>settings.connection\<close> that the listener reads through
  \<^verbatim>\<open>loadSettings()\<close> each time a result arrives.\<close>

record retry_settings =
  retryFailedHosts :: bool
  retryInterval :: int
  retryMaxAttempts :: int

subsection \<open>The \<^verbatim>\<open>batch-result\<close> listener of \<^verbatim>\<open>handleBatchExecute\<close>\<close>

text \<open>
  \<^verbatim>\<open>result.error?.includes('...') || result.error?.includes('...')\<close> with the two
  Russian spellings of "cancelled"; the optional chain yields \<^verbatim>\<open>undefined\<close> for a
  \<^verbatim>\<open>null\<close> error.
\<close>

definition is_cancelled :: "jsstring option \<Rightarrow> bool" where
  "is_cancelled e =
     (case e of
        None \<Rightarrow> False
      | Some m \<Rightarrow> str_includes m ru_otmeneno \<or> str_includes m ru_otmenen)"

text \<open>
  The setter calls the listener makes for one result, after
  \<^verbatim>\<open>queueResultUpdate(result)\<close> (which stores the result for display). The listener
  itself reads no state: it deletes the timer of the host directly, or it hands the
  attempt check to \<^verbatim>\<open>setRetryAttempts\<close>.
\<close>

definition batch_result_listener :: "retry_settings \<Rightarrow> batch_command_result \<Rightarrow> dispatch list" where
  "batch_result_listener currentSettings r =
     (let currentRetryEnabled = retryFailedHosts currentSettings;
          currentRetryInterval = retryInterval currentSettings
      in
      if is_cancelled (error r) \<or> \<not> currentRetryEnabled then
        [ToTimers (TimersDeleteHost (host r))]
      else
        (case error r of
           Some message \<Rightarrow>
             (let shouldRetry = isRetryableError (Str message) in
              if shouldRetry then
                [ToAttempts
                   (AttemptsCheck (host r) currentRetryInterval
                      (retryMaxAttempts currentSettings))]
              else [ToTimers (TimersDeleteHost (host r))])
         | None \<Rightarrow>
             (if result r \<noteq> None then [ToTimers (TimersDeleteHost (host r))] else [])))"

subsection \<open>Rendering\<close>

text \<open>
  One pass over the component applies the queues of the hooks in the order of their
  declaration. A setter called by an updater during the pass puts its update on the queue
  of its hook: the hook applies it in the same pass if it comes later in the order, and in
  the next pass otherwise.
\<close>

definition render_executing :: "workspace_state \<Rightarrow> workspace_state" where
  "render_executing s =
     (case apply_queue apply_executing_update (executingQueue s) (batchExecuting s) of
        (executing, calls) \<Rightarrow>
          enqueue_all calls (s\<lparr>batchExecuting := executing, executingQueue := []\<rparr>))"

definition render_timers :: "workspace_state \<Rightarrow> workspace_state" where
  "render_timers s =
     s\<lparr>retryTimers := foldl (\<lambda>timers u. apply_timers_update u timers) (retryTimers s)
                         (timersQueue s),
       timersQueue := []\<rparr>"

definition render_attempts :: "workspace_state \<Rightarrow> workspace_state" where
  "render_attempts s =
     (case apply_queue apply_attempts_update (attemptsQueue s) (retryAttempts s) of
        (attempts, calls) \<Rightarrow>
          enqueue_all calls (s\<lparr>retryAttempts := attempts, attemptsQueue := []\<rparr>))"

definition render_pass :: "workspace_state \<Rightarrow> workspace_state" where
  "render_pass s = render_attempts (render_timers (render_executing s))"

text \<open>
  React renders the component again while the last pass left updates behind. The attempt
  check is the last hook and calls setters of the first two, and the executing check
  calls the setter of the second, so the second pass leaves nothing.
\<close>

definition render_passes :: "workspace_state \<Rightarrow> workspace_state" where
  "render_passes s = render_pass (render_pass s)"

text \<open>
  A render, followed by the effect on \<^verbatim>\<open>[batchExecuting]\<close>, which runs when the rendered
  value has changed and clears the attempt counters if the batch is now executing.
\<close>

definition render :: "workspace_state \<Rightarrow> workspace_state" where
  "render s =
     (let s' = render_passes s in
      if batchExecuting s' \<noteq> batchExecuting s \<and> batchExecuting s'
      then enqueue_all [ToAttempts AttemptsClear] s'
      else s')"

subsection \<open>The other writers of the retry state\<close>

text \<open>\<^verbatim>\<open>handleBatchExecute\<close> removes old listeners, sets \<^verbatim>\<open>batchExecuting\<close> and
  subscribes the listener.\<close>

definition batch_start :: "workspace_state \<Rightarrow> workspace_state" where
  "batch_start s = enqueue_all [ToExecuting (ExecutingSet True)] (s\<lparr>listening := True\<rparr>)"

text \<open>A result reaches the listener only while it is subscribed.\<close>

definition deliver_result ::
  "retry_settings \<Rightarrow> batch_command_result \<Rightarrow> workspace_state \<Rightarrow> workspace_state"
where
  "deliver_result currentSettings r s =
     (if listening s then enqueue_all (batch_result_listener currentSettings r) s else s)"

text \<open>The one-second interval of the effect on \<^verbatim>\<open>[retryTimers, batchExecuting,
  retryFailedHosts]\<close>, which exists while there are timers, the batch is executing and
  retrying is switched on.\<close>

definition countdown_tick :: "bool \<Rightarrow> workspace_state \<Rightarrow> workspace_state" where
  "countdown_tick retryFailedHostsNow s =
     (if retryTimers s = [] \<or> \<not> batchExecuting s \<or> \<not> retryFailedHostsNow then s
      else enqueue_all [ToTimers TimersCountdown] s)"

text \<open>\<^verbatim>\<open>handleCancel\<close> (both its \<^verbatim>\<open>try\<close> and its \<^verbatim>\<open>catch\<close> branch) and
  \<^verbatim>\<open>cleanupBatchExecution\<close>: each unsubscribes the listener first.\<close>

definition handleCancel :: "workspace_state \<Rightarrow> workspace_state" where
  "handleCancel s =
     enqueue_all [ToExecuting (ExecutingSet False), ToTimers TimersClear]
       (s\<lparr>listening := False\<rparr>)"

definition cleanupBatchExecution :: "workspace_state \<Rightarrow> workspace_state" where
  "cleanupBatchExecution s =
     enqueue_all [ToExecuting (ExecutingSet False), ToTimers TimersClear]
       (s\<lparr>listening := False\<rparr>)"

text \<open>The effect on \<^verbatim>\<open>[retryFailedHosts]\<close>, when the setting is switched off.\<close>

definition retry_disabled_effect :: "workspace_state \<Rightarrow> workspace_state" where
  "retry_disabled_effect s = enqueue_all [ToTimers TimersClear, ToAttempts AttemptsClear] s"

subsection \<open>Runs of the page\<close>

datatype event =
    BatchStart
  | BatchResult retry_settings batch_command_result
  | Render
  | CountdownTick bool
  | HandleCancel
  | BatchFinished
  | RetryDisabled

fun step :: "event \<Rightarrow> workspace_state \<Rightarrow> workspace_state" where
  "step BatchStart s = batch_start s"
| "step (BatchResult currentSettings r) s = deliver_result currentSettings r s"
| "step Render s = render s"
| "step (CountdownTick retryFailedHostsNow) s = countdown_tick retryFailedHostsNow s"
| "step HandleCancel s = handleCancel s"
| "step BatchFinished s = cleanupBatchExecution s"
| "step RetryDisabled s = retry_disabled_effect s"

fun run :: "event list \<Rightarrow> workspace_state \<Rightarrow> workspace_state" where
  "run [] s = s"
| "run (e # es) s = run es (step e s)"

text \<open>
  The retry timers that a render starts for host \<open>h\<close>: the updates of the timer hook
  that set the timer of \<open>h\<close>, in the two passes of the render.
\<close>

fun sets_timer_of :: "jsstring \<Rightarrow> timers_update \<Rightarrow> bool" where
  "sets_timer_of h (TimersSetHost h' currentRetryInterval) = (h' = h)"
| "sets_timer_of h _ = False"

definition timers_started_in_render :: "jsstring \<Rightarrow> workspace_state \<Rightarrow> nat" where
  "timers_started_in_render h s =
     length (filter (sets_timer_of h) (timersQueue (render_executing s))) +
     length (filter (sets_timer_of h) (timersQueue (render_executing (render_pass s))))"

text \<open>The retry timers started for host \<open>h\<close> along a run.\<close>

fun timer_starts :: "jsstring \<Rightarrow> event list \<Rightarrow> workspace_state \<Rightarrow> nat" where
  "timer_starts h [] s = 0"
| "timer_starts h (e # es) s =
     (if e = Render then timers_started_in_render h s else 0) + timer_starts h es (step e s)"

text \<open>How many batch runs a list of events starts.\<close>

definition batch_runs :: "event list \<Rightarrow> nat" where
  "batch_runs es = length (filter (\<lambda>e. e = BatchStart) es)"

text \<open>The executing checks in a queue that were made for host \<open>h\<close>.\<close>

fun probes_host :: "jsstring \<Rightarrow> executing_update \<Rightarrow> bool" where
  "probes_host h (ExecutingProbe h' currentRetryInterval) = (h' = h)"
| "probes_host h _ = False"

text \<open>
  The attempt limit \<open>m\<close> is in force on a page when no attempt counter exceeds it and
  every attempt check that is queued was made under it; an event keeps it in force unless
  it is a result that arrives under another limit.
\<close>

fun made_under :: "int \<Rightarrow> attempts_update \<Rightarrow> bool" where
  "made_under m AttemptsClear = True"
| "made_under m (AttemptsCheck h currentRetryInterval retryMaxAttemptsNow) =
     (retryMaxAttemptsNow = m)"

definition limit_in_force :: "int \<Rightarrow> workspace_state \<Rightarrow> bool" where
  "limit_in_force m s \<longleftrightarrow>
     list_all (\<lambda>(h, n). n \<le> m) (retryAttempts s) \<and>
     list_all (made_under m) (attemptsQueue s)"

fun under_limit :: "int \<Rightarrow> event \<Rightarrow> bool" where
  "under_limit m (BatchResult currentSettings r) = (retryMaxAttempts currentSettings = m)"
| "under_limit m _ = True"

text \<open>
  A page on which no reset of the attempt counters is on its way: no clearing of the
  counters is queued, no switch of \<^verbatim>\<open>batchExecuting\<close> to \<^verbatim>\<open>true\<close> is queued (the
  effect on it would clear them), and the queues hold none of the two updates that only
  an updater makes during a render. The events that leave it so are all but the start of a batch run and the
  switching off of retrying.
\<close>

fun is_probe :: "executing_update \<Rightarrow> bool" where
  "is_probe (ExecutingProbe h currentRetryInterval) = True"
| "is_probe _ = False"

fun is_timer_set :: "timers_update \<Rightarrow> bool" where
  "is_timer_set (TimersSetHost h currentRetryInterval) = True"
| "is_timer_set _ = False"

definition no_reset_pending :: "workspace_state \<Rightarrow> bool" where
  "no_reset_pending s \<longleftrightarrow>
     AttemptsClear \<notin> set (attemptsQueue s) \<and>
     ExecutingSet True \<notin> set (executingQueue s) \<and>
     \<not> list_ex is_probe (executingQueue s) \<and>
     \<not> list_ex is_timer_set (timersQueue s)"

fun no_reset :: "event \<Rightarrow> bool" where
  "no_reset BatchStart = False"
| "no_reset RetryDisabled = False"
| "no_reset _ = True"

subsection \<open>Example runs\<close>

text \<open>
  An idle page and a page in the middle of a batch; retry settings without an attempt
  limit and with a limit of two; a refused connection for the host \<^verbatim>\<open>10.0.0.2\<close>, and for
  the host \<^verbatim>\<open>10.0.0.3\<close> a refused connection and an authentication failure.
\<close>

definition idle_page :: workspace_state where
  "idle_page =
     \<lparr>batchExecuting = False, retryTimers = [], retryAttempts = [],
      executingQueue = [], timersQueue = [], attemptsQueue = [], listening = False\<rparr>"

definition executing_page :: workspace_state where
  "executing_page =
     \<lparr>batchExecuting = True, retryTimers = [], retryAttempts = [],
      executingQueue = [], timersQueue = [], attemptsQueue = [], listening = True\<rparr>"

definition retry_unbounded :: retry_settings where
  "retry_unbounded = \<lparr>retryFailedHosts = True, retryInterval = 30, retryMaxAttempts = 0\<rparr>"

definition retry_twice :: retry_settings where
  "retry_twice = \<lparr>retryFailedHosts = True, retryInterval = 30, retryMaxAttempts = 2\<rparr>"

definition refused_elsewhere :: batch_command_result where
  "refused_elsewhere =
     \<lparr>result = None, error = Some (ascii ''Connection refused''),
      host = ascii ''10.0.0.2'', timestamp = None\<rparr>"

definition refused_result :: batch_command_result where
  "refused_result =
     \<lparr>result = None, error = Some (ascii ''Connection refused''),
      host = ascii ''10.0.0.3'', timestamp = None\<rparr>"

definition denied_result :: batch_command_result where
  "denied_result =
     \<lparr>result = None, error = Some (ascii ''Authentication failed''),
      host = ascii ''10.0.0.3'', timestamp = None\<rparr>"

text \<open>
  Three results that reach the page before it renders: the first leaves an update pending,
  the second is a transient failure of \<^verbatim>\<open>10.0.0.3\<close>, the third its authentication
  failure.
\<close>

definition late_denial :: "event list" where
  "late_denial =
     [BatchResult retry_unbounded refused_elsewhere,
      BatchResult retry_unbounded refused_result,
      BatchResult retry_unbounded denied_result,
      Render]"

text \<open>
  One batch run under a limit of two in which \<^verbatim>\<open>10.0.0.3\<close> refuses the connection five
  times, each result rendered before the next arrives, and retrying is switched off and on
  again after the third.
\<close>

definition toggled_run :: "event list" where
  "toggled_run =
     [BatchStart, Render, Render,
      BatchResult retry_twice refused_result, Render,
      BatchResult retry_twice refused_result, Render,
      BatchResult retry_twice refused_result, Render,
      RetryDisabled, Render,
      BatchResult retry_twice refused_result, Render,
      BatchResult retry_twice refused_result, Render]"

text \<open>The page once a batch run has started and the reset of the counters has been
  rendered, and three refused connections of \<^verbatim>\<open>10.0.0.3\<close> under a limit of two, each
  rendered before the next arrives.\<close>

definition started_page :: workspace_state where
  "started_page = run [BatchStart, Render, Render] idle_page"

definition three_refusals :: "event list" where
  "three_refusals =
     [BatchResult retry_twice refused_result, Render,
      BatchResult retry_twice refused_result, Render,
      BatchResult retry_twice refused_result, Render]"

subsection \<open>The request of \<^verbatim>\<open>execute_batch_commands\<close>\<close>

text \<open>
  JavaScript values, as the validators of \<^verbatim>\<open>src/utils/validation.ts\<close> (parameter
  \<^verbatim>\<open>data: any\<close>) and the object literals of the page need them. An object is the list
  of its own properties, with distinct keys; numbers are taken as exact reals.
\<close>

datatype jsval =
    JUndefined
  | JNull
  | JBool bool
  | JNumber real
  | JString jsstring
  | JArray "jsval list"
  | JObject "(string \<times> jsval) list"

text \<open>The \<^verbatim>\<open>typeof\<close> operator.\<close>

fun typeof :: "jsval \<Rightarrow> string" where
  "typeof JUndefined = ''undefined''"
| "typeof JNull = ''object''"
| "typeof (JBool b) = ''boolean''"
| "typeof (JNumber n) = ''number''"
| "typeof (JString s) = ''string''"
| "typeof (JArray xs) = ''object''"
| "typeof (JObject kvs) = ''object''"

text \<open>
  Property access \<^verbatim>\<open>data.key\<close> for the data properties the program reads. The
  validators read a property only after \<^verbatim>\<open>typeof data === 'object' && data !== null\<close>,
  so the access never throws; an array has none of these properties.
\<close>

fun get_prop :: "jsval \<Rightarrow> string \<Rightarrow> jsval" where
  "get_prop (JObject kvs) key = (case map_of kvs key of Some v \<Rightarrow> v | None \<Rightarrow> JUndefined)"
| "get_prop _ key = JUndefined"

text \<open>
  The argument \<^verbatim>\<open>request\<close> that \<^verbatim>\<open>handleBatchExecute\<close> passes to
  \<^verbatim>\<open>invoke('execute_batch_commands', { request: ... })\<close>: the object literal of the
  source, property by property, over the values in scope there.
\<close>

definition execute_batch_commands_request ::
  "jsval \<Rightarrow> jsval \<Rightarrow> jsstring \<Rightarrow> real \<Rightarrow> bool \<Rightarrow> real \<Rightarrow> bool \<Rightarrow> jsval"
where
  "execute_batch_commands_request hosts sshConfig command max_concurrent
       retryFailedHostsNow retryIntervalNow disableCommandValidation =
     JObject
       [(''hosts'', hosts),
        (''config_template'', sshConfig),
        (''command'', JString command),
        (''max_concurrent'', JNumber max_concurrent),
        (''retry_failed_hosts'', JBool retryFailedHostsNow),
        (''retry_interval'', JNumber retryIntervalNow),
        (''skip_validation'', JBool disableCommandValidation)]"

text \<open>The own property names of an object, as \<^verbatim>\<open>Object.keys\<close> lists them.\<close>

fun object_keys :: "jsval \<Rightarrow> string list" where
  "object_keys (JObject kvs) = map fst kvs"
| "object_keys _ = []"

subsection \<open>The initial results of \<^verbatim>\<open>handleBatchExecute\<close>\<close>

text \<open>\<^verbatim>\<open>HostEntry\<close> of \<^verbatim>\<open>src/types\<close>.\<close>

record host_entry =
  ip :: jsstring
  port :: "real option"
  hostname :: "jsstring option"
  metadata :: "(jsstring \<times> jsstring) list"
  group :: "jsstring option"
  color :: "jsstring option"
  tags :: "jsstring list option"

text \<open>
  \<^verbatim>\<open>addTimestamp\<close> of \<^verbatim>\<open>src/utils/resultsCleanup.ts\<close>: the spread copy of the object
  with \<^verbatim>\<open>timestamp\<close> set to the clock reading \<open>now\<close>
  (\<^verbatim>\<open>new Date().toISOString()\<close>).
\<close>

fun addTimestamp :: "jsstring \<Rightarrow> jsval \<Rightarrow> jsval" where
  "addTimestamp now (JObject kvs) = JObject (AList.update ''timestamp'' (JString now) kvs)"
| "addTimestamp now v = JObject [(''timestamp'', JString now)]"

text \<open>
  \<^verbatim>\<open>initialResults\<close> and \<^verbatim>\<open>resultsWithTimestamp\<close>: one record per host, "with the
  status executing", which \<^verbatim>\<open>setBatchResults\<close> stores as the batch results. The source
  reads the clock for every record; \<open>now\<close> and \<open>now'\<close> stand for the readings of the two
  passes, of which nothing but their being strings is used.
\<close>

definition initialResults :: "jsstring \<Rightarrow> host_entry list \<Rightarrow> jsval list" where
  "initialResults now hosts =
     map (\<lambda>hostEntry.
            JObject
              [(''result'', JNull),
               (''error'', JNull),
               (''host'', JString (ip hostEntry)),
               (''timestamp'', JString now)])
       hosts"

definition resultsWithTimestamp :: "jsstring \<Rightarrow> jsstring \<Rightarrow> host_entry list \<Rightarrow> jsval list" where
  "resultsWithTimestamp now now' hosts = map (addTimestamp now') (initialResults now hosts)"

subsection \<open>The pre-run estimate \<^verbatim>\<open>estimatedExecutionTime\<close>\<close>

text \<open>\<^verbatim>\<open>settings.connection.reconnectDelayBase || 1\<close>.\<close>

definition delayBase :: "real \<Rightarrow> real" where
  "delayBase reconnectDelayBase = (if reconnectDelayBase = 0 then 1 else reconnectDelayBase)"

text \<open>
  \<^verbatim>\<open>reconnectAttempts > 1 ? delayBase * (Math.pow(2, reconnectAttempts - 1) - 1) : 0\<close>,
  for a whole number of attempts (the settings page stores \<^verbatim>\<open>parseInt\<close> of the input,
  clamped to \<open>0..10\<close>).
\<close>

definition delaySum :: "int \<Rightarrow> real \<Rightarrow> real" where
  "delaySum reconnectAttempts base =
     (if reconnectAttempts > 1 then base * (2 ^ nat (reconnectAttempts - 1) - 1) else 0)"

text \<open>\<^verbatim>\<open>timeout * reconnectAttempts + delaySum\<close>.\<close>

definition worstCasePerHost :: "real \<Rightarrow> int \<Rightarrow> real \<Rightarrow> real" where
  "worstCasePerHost timeout reconnectAttempts base =
     timeout * of_int reconnectAttempts + delaySum reconnectAttempts base"

text \<open>
  Modelled from the spec: the connection-level retry policy of the engine, whose code is
  not among the sources. "The delay before the i-th retry (i starting at 1) is
  \<^verbatim>\<open>base * 2^(i-1)\<close> seconds."
\<close>

definition retry_delay :: "real \<Rightarrow> nat \<Rightarrow> real" where
  "retry_delay base i = base * 2 ^ (i - 1)"

section \<open>Validation: \<^verbatim>\<open>src/utils/validation.ts\<close>\<close>

subsection \<open>Validators of stored data\<close>

definition isValidCommandResult :: "jsval \<Rightarrow> bool" where
  "isValidCommandResult data \<longleftrightarrow>
     typeof data = ''object'' \<and>
     data \<noteq> JNull \<and>
     typeof (get_prop data ''stdout'') = ''string'' \<and>
     typeof (get_prop data ''stderr'') = ''string'' \<and>
     typeof (get_prop data ''exit_status'') = ''number'' \<and>
     typeof (get_prop data ''host'') = ''string'' \<and>
     (get_prop data ''vehicle_id'' = JUndefined \<or>
      typeof (get_prop data ''vehicle_id'') = ''string'') \<and>
     (get_prop data ''timestamp'' = JUndefined \<or>
      typeof (get_prop data ''timestamp'') = ''string'')"

definition isValidBatchCommandResult :: "jsval \<Rightarrow> bool" where
  "isValidBatchCommandResult data \<longleftrightarrow>
     typeof data = ''object'' \<and>
     data \<noteq> JNull \<and>
     typeof (get_prop data ''host'') = ''string'' \<and>
     (get_prop data ''result'' = JNull \<or> isValidCommandResult (get_prop data ''result'')) \<and>
     (get_prop data ''error'' = JNull \<or> typeof (get_prop data ''error'') = ''string'') \<and>
     (get_prop data ''timestamp'' = JUndefined \<or>
      typeof (get_prop data ''timestamp'') = ''string'')"

text \<open>\<^verbatim>\<open>Array.isArray(data) && data.every(isValidBatchCommandResult)\<close>.\<close>

fun isValidBatchCommandResultArray :: "jsval \<Rightarrow> bool" where
  "isValidBatchCommandResultArray (JArray xs) = list_all isValidBatchCommandResult xs"
| "isValidBatchCommandResultArray _ = False"

subsection \<open>Host, port and configuration checks\<close>

text \<open>The character classes of the two regular expressions: \<^verbatim>\<open>\d\<close> and
  \<^verbatim>\<open>[a-zA-Z0-9]\<close>; the dot, the hyphen and the colon.\<close>

definition is_digit :: "nat \<Rightarrow> bool" where
  "is_digit c \<longleftrightarrow> 0x30 \<le> c \<and> c \<le> 0x39"

definition is_alnum :: "nat \<Rightarrow> bool" where
  "is_alnum c \<longleftrightarrow>
     (0x61 \<le> c \<and> c \<le> 0x7A) \<or> (0x41 \<le> c \<and> c \<le> 0x5A) \<or> (0x30 \<le> c \<and> c \<le> 0x39)"

definition dot :: nat where "dot = 0x2E"

definition hyphen :: nat where "hyphen = 0x2D"

definition colon :: nat where "colon = 0x3A"

text \<open>\<^verbatim>\<open>s.split(sep)\<close> for a one-character separator: never empty, and
  \<^verbatim>\<open>''.split('.')\<close> is \<^verbatim>\<open>['']\<close>.\<close>

fun split_on :: "nat \<Rightarrow> jsstring \<Rightarrow> jsstring list" where
  "split_on sep [] = [[]]"
| "split_on sep (c # cs) =
     (if c = sep then [] # split_on sep cs
      else (case split_on sep cs of
              [] \<Rightarrow> [[c]]
            | part # parts \<Rightarrow> (c # part) # parts))"

text \<open>
  \<^verbatim>\<open>/^(\d{1,3}\.){3}\d{1,3}$/.test(ip)\<close>: a digit is never a dot, so the expression
  matches exactly the strings that split at the dots into four groups of one to three
  digits.
\<close>

definition ipRegex_test :: "jsstring \<Rightarrow> bool" where
  "ipRegex_test s \<longleftrightarrow>
     length (split_on dot s) = 4 \<and>
     list_all (\<lambda>part. 1 \<le> length part \<and> length part \<le> 3 \<and> list_all is_digit part)
       (split_on dot s)"

text \<open>\<^verbatim>\<open>Number(part)\<close> on a string of decimal digits.\<close>

definition Number_of :: "jsstring \<Rightarrow> nat" where
  "Number_of part = foldl (\<lambda>n c. 10 * n + (c - 0x30)) 0 part"

definition validateIp :: "jsstring \<Rightarrow> bool" where
  "validateIp ip_string =
     (if \<not> ipRegex_test ip_string then False
      else
        list_all
          (\<lambda>part.
             if length part > 1 \<and> startsWith part (ascii ''0'') then False
             else (let num = Number_of part in num \<ge> 0 \<and> num \<le> 255))
          (split_on dot ip_string))"

definition validatePort :: "real \<Rightarrow> bool" where
  "validatePort p \<longleftrightarrow> p > 0 \<and> p \<le> 65535"

text \<open>
  One label of the hostname expression,
  \<^verbatim>\<open>[a-zA-Z0-9]([a-zA-Z0-9-]{0,61}[a-zA-Z0-9])?\<close>: a single letter or digit, or two
  to sixty-three characters that begin and end with a letter or digit and have letters,
  digits and hyphens between.
\<close>

definition hostname_label :: "jsstring \<Rightarrow> bool" where
  "hostname_label l \<longleftrightarrow>
     (case l of
        [] \<Rightarrow> False
      | c # cs \<Rightarrow>
          is_alnum c \<and>
          (cs = [] \<or>
           (length (butlast cs) \<le> 61 \<and>
            list_all (\<lambda>d. is_alnum d \<or> d = hyphen) (butlast cs) \<and>
            is_alnum (last cs))))"

text \<open>
  \<^verbatim>\<open>hostnameRegex.test(hostname)\<close>: a label followed by any number of
  \<^verbatim>\<open>\.label\<close>. No label contains a dot, so the expression matches exactly the
  strings all of whose dot-separated parts are labels.
\<close>

definition hostnameRegex_test :: "jsstring \<Rightarrow> bool" where
  "hostnameRegex_test s \<longleftrightarrow> list_all hostname_label (split_on dot s)"

definition validateHostname :: "jsstring \<Rightarrow> bool" where
  "validateHostname h =
     (if length h = 0 \<or> length h > 253 then False else hostnameRegex_test h)"

text \<open>\<^verbatim>\<open>String.prototype.trim\<close>: white space and line terminators of ECMAScript.\<close>

definition is_js_whitespace :: "nat \<Rightarrow> bool" where
  "is_js_whitespace c \<longleftrightarrow>
     c \<in> set [0x9, 0xA, 0xB, 0xC, 0xD, 0x20, 0xA0, 0x1680, 0x2028, 0x2029, 0x202F,
              0x205F, 0x3000, 0xFEFF] \<or>
     (0x2000 \<le> c \<and> c \<le> 0x200A)"

definition trim :: "jsstring \<Rightarrow> jsstring" where
  "trim s = rev (dropWhile is_js_whitespace (rev (dropWhile is_js_whitespace s)))"

text \<open>The parameter of \<^verbatim>\<open>validateSshConfig\<close>; an optional property is an option.\<close>

record ssh_config_input =
  cfg_host :: jsstring
  cfg_port :: real
  username :: jsstring
  auth_method :: jsstring
  password :: "jsstring option"
  key_path :: "jsstring option"
  ppk_path :: "jsstring option"
  passwordMinLength :: "real option"

text \<open>The messages that \<^verbatim>\<open>validateSshConfig\<close> pushes, one constructor for each.\<close>

datatype config_error =
    InvalidHost
  | InvalidPort
  | UsernameMissing
  | PasswordMissing
  | PasswordTooShort real
  | KeyPathMissing
  | PpkPathMissing

record validation_result =
  valid :: bool
  errors :: "config_error list"

text \<open>A missing or empty optional string is falsy; so is a missing or zero number.\<close>

definition validateSshConfig :: "ssh_config_input \<Rightarrow> validation_result" where
  "validateSshConfig config =
     (let host_errors =
            (if cfg_host config = [] \<or> cfg_host config = ascii ''batch'' then []
             else if \<not> validateIp (cfg_host config) \<and> \<not> validateHostname (cfg_host config)
             then [InvalidHost]
             else []);
          port_errors = (if \<not> validatePort (cfg_port config) then [InvalidPort] else []);
          username_errors =
            (if username config = [] \<or> length (trim (username config)) = 0
             then [UsernameMissing] else []);
          password_errors =
            (if auth_method config = ascii ''password'' then
               (case password config of
                  None \<Rightarrow> [PasswordMissing]
                | Some pw \<Rightarrow>
                    if pw = [] then [PasswordMissing]
                    else
                      (case passwordMinLength config of
                         None \<Rightarrow> []
                       | Some minLength \<Rightarrow>
                           if minLength \<noteq> 0 \<and> real (length pw) < minLength
                           then [PasswordTooShort minLength]
                           else []))
             else []);
          key_errors =
            (if auth_method config = ascii ''key'' then
               (case key_path config of
                  None \<Rightarrow> [KeyPathMissing]
                | Some path \<Rightarrow>
                    if path = [] \<or> length (trim path) = 0 then [KeyPathMissing] else [])
             else []);
          ppk_errors =
            (if auth_method config = ascii ''ppk'' then
               (case ppk_path config of
                  None \<Rightarrow> [PpkPathMissing]
                | Some path \<Rightarrow>
                    if path = [] \<or> length (trim path) = 0 then [PpkPathMissing] else [])
             else []);
          all_errors =
            host_errors @ port_errors @ username_errors @ password_errors @ key_errors @
            ppk_errors
      in \<lparr>valid = (length all_errors = 0), errors = all_errors\<rparr>)"

subsection \<open>Example data\<close>

text \<open>A stored record with both a result and an error, the hosts of a batch, and a
  configuration whose host is an IPv6 literal.\<close>

definition record_with_both :: jsval where
  "record_with_both =
     JObject
       [(''result'',
         JObject
           [(''stdout'', JString (ascii ''ok'')),
            (''stderr'', JString []),
            (''exit_status'', JNumber 0),
            (''host'', JString (ascii ''10.0.0.1''))]),
        (''error'', JString (ascii ''Connection reset'')),
        (''host'', JString (ascii ''10.0.0.1''))]"

definition first_host :: host_entry where
  "first_host =
     \<lparr>ip = ascii ''10.0.0.1'', port = None, hostname = None, metadata = [],
      group = None, color = None, tags = None\<rparr>"

definition two_hosts :: "host_entry list" where
  "two_hosts =
     [first_host,
      \<lparr>ip = ascii ''10.0.0.2'', port = Some 2222, hostname = None, metadata = [],
       group = None, color = None, tags = None\<rparr>]"

text \<open>The record of the first host while it is executing.\<close>

definition pending_record :: jsval where
  "pending_record =
     JObject
       [(''result'', JNull),
        (''error'', JNull),
        (''host'', JString (ascii ''10.0.0.1'')),
        (''timestamp'', JString (ascii ''2024-01-01T00:00:00.001Z''))]"

definition ipv6_config :: ssh_config_input where
  "ipv6_config =
     \<lparr>cfg_host = ascii ''2001:db8::1'', cfg_port = 22, username = ascii ''root'',
      auth_method = ascii ''key'', password = None,
      key_path = Some (ascii ''/home/op/.ssh/id_ed25519''), ppk_path = None,
      passwordMinLength = None\<rparr>"

section \<open>Properties of the classifier\<close>

text \<open>The classifier on a few messages; the last two are the Russian stem for
  "authentication" in capital letters, and a message that begins with the Kelvin sign.\<close>

lemma classifier_examples:
  "isRetryableError (Str (ascii ''Connection timeout''))"
  "isRetryableError (Str (ascii ''DNS lookup failed''))"
  "\<not> isRetryableError (Str (ascii ''Command validation failed''))"
  "\<not> isRetryableError (Str (ascii ''Key file not found: /root/.ssh/id_rsa''))"
  "\<not> isRetryableError (Str (ascii ''Failed to execute command''))"
  "\<not> isRetryableError (Str (map (\<lambda>c. c - 0x20) ru_autentifikac))"
  "\<not> isRetryableError (Str (0x212A # ascii ''ey path not found''))"
  by code_simp+

lemma str_includes_nonempty: "str_includes s p \<Longrightarrow> p \<noteq> [] \<Longrightarrow> s \<noteq> []"
  by (cases s) auto

lemma toLowerCase_Nil_iff: "toLowerCase s = [] \<longleftrightarrow> s = []"
  by (cases s) (auto simp: toLowerCase_def lower_unit_def)

text \<open>
  C10. For a \<^verbatim>\<open>null\<close>, an \<^verbatim>\<open>undefined\<close> or an empty error message
  \<^verbatim>\<open>isRetryableError\<close> returns \<^verbatim>\<open>false\<close>: the absence of an error is never a
  retryable failure.
\<close>

theorem isRetryableError_absent:
  "isRetryableError Null = False \<and>
   isRetryableError Undefined = False \<and>
   isRetryableError (Str []) = False"
  by (simp add: isRetryableError.simps)

text \<open>
  C3. A failure message that contains an authentication-denial phrase
  (\<^verbatim>\<open>authentication\<close>, its Russian stem, or \<^verbatim>\<open>permission denied\<close>, in any
  letter case) is not retryable: \<^verbatim>\<open>isRetryableError\<close> returns \<^verbatim>\<open>false\<close>.
\<close>

theorem isRetryableError_authentication:
  assumes "str_includes (toLowerCase message) (ascii ''authentication'') \<or>
           str_includes (toLowerCase message) ru_autentifikac \<or>
           str_includes (toLowerCase message) (ascii ''permission denied'')"
  shows "isRetryableError (Str message) = False"
proof -
  from assms have auth: "is_authentication_error (toLowerCase message)"
    by (simp add: is_authentication_error_def)
  from assms have "toLowerCase message \<noteq> []"
    by (auto simp: ascii_def ru_autentifikac_def dest: str_includes_nonempty)
  then have "message \<noteq> []"
    by (simp add: toLowerCase_Nil_iff)
  with auth show ?thesis
    by (simp add: isRetryableError.simps Let_def)
qed

theorem isRetryableError_authentication_witness:
  "str_includes (toLowerCase (ascii ''Permission denied (publickey)''))
     (ascii ''permission denied'') \<and>
   isRetryableError (Str (ascii ''Permission denied (publickey)'')) = False"
proof -
  have h: "str_includes (toLowerCase (ascii ''Permission denied (publickey)''))
             (ascii ''permission denied'')"
    by code_simp
  then show ?thesis
    using isRetryableError_authentication [of "ascii ''Permission denied (publickey)''"]
    by blast
qed

text \<open>
  C2 as stated fails at the empty message: it matches none of the known categories, and
  the guard of the function returns \<^verbatim>\<open>false\<close> for it.
\<close>

theorem isRetryableError_empty_unknown:
  "\<not> matches_known_category (toLowerCase []) \<and> isRetryableError (Str []) = False"
  by code_simp

text \<open>
  C2, amended. Every non-empty failure message that matches none of the known categories
  (authentication, validation, key file, format or configuration, connection, network,
  command execution) is retryable: \<^verbatim>\<open>isRetryableError\<close> returns \<^verbatim>\<open>true\<close>.
\<close>

theorem isRetryableError_unknown:
  assumes "message \<noteq> []"
    and "\<not> matches_known_category (toLowerCase message)"
  shows "isRetryableError (Str message) = True"
  using assms by (simp add: isRetryableError.simps matches_known_category_def Let_def)

theorem isRetryableError_unknown_witness:
  "ascii ''Host key mismatch'' \<noteq> [] \<and>
   \<not> matches_known_category (toLowerCase (ascii ''Host key mismatch'')) \<and>
   isRetryableError (Str (ascii ''Host key mismatch'')) = True"
proof -
  have h1: "ascii ''Host key mismatch'' \<noteq> []"
    by code_simp
  have h2: "\<not> matches_known_category (toLowerCase (ascii ''Host key mismatch''))"
    by code_simp
  from h1 h2 show ?thesis
    using isRetryableError_unknown [of "ascii ''Host key mismatch''"]
    by blast
qed

text \<open>Every non-empty message of the authentication, validation, key-file and format
  categories is classified as not retryable.\<close>

lemma isRetryableError_permanent:
  assumes "message \<noteq> []"
    and "is_authentication_error (toLowerCase message) \<or>
         is_validation_error (toLowerCase message) \<or>
         is_key_file_error (toLowerCase message) \<or>
         is_format_error (toLowerCase message)"
  shows "\<not> isRetryableError (Str message)"
  using assms by (auto simp: isRetryableError.simps Let_def)

section \<open>Properties of the retry timers\<close>

subsection \<open>The setter calls that updaters make\<close>

lemma enqueue_all_fields [simp]:
  "batchExecuting (enqueue_all calls s) = batchExecuting s"
  "retryTimers (enqueue_all calls s) = retryTimers s"
  "retryAttempts (enqueue_all calls s) = retryAttempts s"
  "listening (enqueue_all calls s) = listening s"
  "executingQueue (enqueue_all calls s) = executingQueue s @ concat (map to_executing calls)"
  "timersQueue (enqueue_all calls s) = timersQueue s @ concat (map to_timers calls)"
  "attemptsQueue (enqueue_all calls s) = attemptsQueue s @ concat (map to_attempts calls)"
  by (simp_all add: enqueue_all_def)

lemma attempts_calls:
  "apply_queue apply_attempts_update q a = (a', calls) \<Longrightarrow>
   concat (map to_attempts calls) = [] \<and>
   \<not> list_ex is_timer_set (concat (map to_timers calls)) \<and>
   ExecutingSet b \<notin> set (concat (map to_executing calls))"
proof (induction q arbitrary: a a' calls)
  case Nil
  then show ?case by simp
next
  case (Cons u q)
  obtain a1 c1 where u: "apply_attempts_update u a = (a1, c1)" by force
  obtain a2 c2 where q: "apply_queue apply_attempts_update q a1 = (a2, c2)" by force
  from Cons.prems u q have calls: "calls = c1 @ c2" by simp
  have "concat (map to_attempts c1) = [] \<and>
        \<not> list_ex is_timer_set (concat (map to_timers c1)) \<and>
        ExecutingSet b \<notin> set (concat (map to_executing c1))"
    using u by (cases u) (auto simp: Let_def split: if_splits)
  with Cons.IH [OF q] calls show ?case by simp
qed

lemma executing_calls:
  "apply_queue apply_executing_update q e = (e', calls) \<Longrightarrow>
   concat (map to_attempts calls) = [] \<and>
   concat (map to_executing calls) = [] \<and>
   length (filter (sets_timer_of h) (concat (map to_timers calls)))
     \<le> length (filter (probes_host h) q)"
proof (induction q arbitrary: e e' calls)
  case Nil
  then show ?case by simp
next
  case (Cons u q)
  obtain e1 c1 where u: "apply_executing_update u e = (e1, c1)" by force
  obtain e2 c2 where q: "apply_queue apply_executing_update q e1 = (e2, c2)" by force
  from Cons.prems u q have calls: "calls = c1 @ c2" by simp
  have "concat (map to_attempts c1) = [] \<and>
        concat (map to_executing c1) = [] \<and>
        length (filter (sets_timer_of h) (concat (map to_timers c1)))
          \<le> (if probes_host h u then 1 else 0)"
    using u by (cases u) (auto split: if_splits)
  with Cons.IH [OF q] calls show ?case by (auto split: if_splits)
qed

lemma executing_calls_no_probe:
  "apply_queue apply_executing_update q e = (e', calls) \<Longrightarrow>
   \<not> list_ex is_probe q \<Longrightarrow> calls = []"
proof (induction q arbitrary: e e' calls)
  case Nil
  then show ?case by simp
next
  case (Cons u q)
  obtain e1 c1 where u: "apply_executing_update u e = (e1, c1)" by force
  obtain e2 c2 where q: "apply_queue apply_executing_update q e1 = (e2, c2)" by force
  from Cons.prems u q have calls: "calls = c1 @ c2" by simp
  from Cons.prems(2) have nop: "\<not> is_probe u" and rest: "\<not> list_ex is_probe q"
    by simp_all
  from nop u have "c1 = []" by (cases u) auto
  with Cons.IH [OF q rest] calls show ?case by simp
qed

lemma executing_value:
  "apply_queue apply_executing_update q e = (e', calls) \<Longrightarrow>
   ExecutingSet True \<notin> set q \<Longrightarrow> e' \<Longrightarrow> e"
proof (induction q arbitrary: e e' calls)
  case Nil
  then show ?case by simp
next
  case (Cons u q)
  obtain e1 c1 where u: "apply_executing_update u e = (e1, c1)" by force
  obtain e2 c2 where q: "apply_queue apply_executing_update q e1 = (e2, c2)" by force
  from Cons.prems u q have "e' = e2" by simp
  with Cons.IH [OF q] Cons.prems have "e1" by simp
  with u Cons.prems(2) show ?case by (cases u) auto
qed

lemma attempts_of_update:
  "attempts_of (AList.update h n a) h' = (if h' = h then n else attempts_of a h')"
  by (simp add: attempts_of_def update_conv')

lemma attempts_growth:
  "apply_queue apply_attempts_update q a = (a', calls) \<Longrightarrow> AttemptsClear \<notin> set q \<Longrightarrow>
   attempts_of a' h =
     attempts_of a h + int (length (filter (probes_host h) (concat (map to_executing calls))))"
proof (induction q arbitrary: a a' calls)
  case Nil
  then show ?case by simp
next
  case (Cons u q)
  obtain a1 c1 where u: "apply_attempts_update u a = (a1, c1)" by force
  obtain a2 c2 where q: "apply_queue apply_attempts_update q a1 = (a2, c2)" by force
  from Cons.prems u q have calls: "calls = c1 @ c2" and a': "a' = a2" by simp_all
  from Cons.prems(2) have "u \<noteq> AttemptsClear" and rest: "AttemptsClear \<notin> set q" by auto
  then obtain g i cap where check: "u = AttemptsCheck g i cap" by (cases u) auto
  have "attempts_of a1 h =
          attempts_of a h + int (length (filter (probes_host h) (concat (map to_executing c1))))"
    using u check by (auto simp: Let_def attempts_of_update split: if_splits)
  with Cons.IH [OF q rest] calls a' show ?case by simp
qed

subsection \<open>What a render does\<close>

lemma no_timer_set:
  "\<not> list_ex is_timer_set xs \<Longrightarrow> filter (sets_timer_of h) xs = []"
proof (induction xs)
  case Nil
  then show ?case by simp
next
  case (Cons u xs)
  then show ?case by (cases u) auto
qed

lemma render_executing_fields:
  assumes "apply_queue apply_executing_update (executingQueue s) (batchExecuting s) = (e, calls)"
  shows "batchExecuting (render_executing s) = e"
    and "executingQueue (render_executing s) = []"
    and "timersQueue (render_executing s) = timersQueue s @ concat (map to_timers calls)"
    and "attemptsQueue (render_executing s) = attemptsQueue s"
    and "retryAttempts (render_executing s) = retryAttempts s"
    and "retryTimers (render_executing s) = retryTimers s"
    and "listening (render_executing s) = listening s"
  using assms executing_calls [OF assms]
  by (simp_all add: render_executing_def)

lemma render_timers_fields [simp]:
  "batchExecuting (render_timers s) = batchExecuting s"
  "executingQueue (render_timers s) = executingQueue s"
  "timersQueue (render_timers s) = []"
  "attemptsQueue (render_timers s) = attemptsQueue s"
  "retryAttempts (render_timers s) = retryAttempts s"
  "listening (render_timers s) = listening s"
  by (simp_all add: render_timers_def)

lemma render_attempts_fields:
  assumes "apply_queue apply_attempts_update (attemptsQueue s) (retryAttempts s) = (a, calls)"
  shows "retryAttempts (render_attempts s) = a"
    and "attemptsQueue (render_attempts s) = []"
    and "executingQueue (render_attempts s) = executingQueue s @ concat (map to_executing calls)"
    and "timersQueue (render_attempts s) = timersQueue s @ concat (map to_timers calls)"
    and "batchExecuting (render_attempts s) = batchExecuting s"
    and "retryTimers (render_attempts s) = retryTimers s"
    and "listening (render_attempts s) = listening s"
  using assms attempts_calls [OF assms]
  by (simp_all add: render_attempts_def)

lemma render_pass_fields:
  assumes ex: "apply_queue apply_executing_update (executingQueue s) (batchExecuting s) = (e, ecalls)"
    and at: "apply_queue apply_attempts_update (attemptsQueue s) (retryAttempts s) = (a, acalls)"
  shows "batchExecuting (render_pass s) = e"
    and "retryAttempts (render_pass s) = a"
    and "attemptsQueue (render_pass s) = []"
    and "executingQueue (render_pass s) = concat (map to_executing acalls)"
    and "timersQueue (render_pass s) = concat (map to_timers acalls)"
    and "listening (render_pass s) = listening s"
proof -
  let ?s1 = "render_timers (render_executing s)"
  have at': "apply_queue apply_attempts_update (attemptsQueue ?s1) (retryAttempts ?s1) = (a, acalls)"
    using at by (simp add: render_executing_fields [OF ex])
  show "batchExecuting (render_pass s) = e"
    and "retryAttempts (render_pass s) = a"
    and "attemptsQueue (render_pass s) = []"
    and "executingQueue (render_pass s) = concat (map to_executing acalls)"
    and "timersQueue (render_pass s) = concat (map to_timers acalls)"
    and "listening (render_pass s) = listening s"
    unfolding render_pass_def
    by (simp_all add: render_attempts_fields [OF at'] render_executing_fields [OF ex])
qed

lemma render_passes_quiescent:
  "executingQueue (render_passes s) = [] \<and> timersQueue (render_passes s) = [] \<and>
   attemptsQueue (render_passes s) = []"
proof -
  obtain e ecalls where ex:
    "apply_queue apply_executing_update (executingQueue s) (batchExecuting s) = (e, ecalls)"
    by force
  obtain a acalls where at:
    "apply_queue apply_attempts_update (attemptsQueue s) (retryAttempts s) = (a, acalls)"
    by force
  let ?s1 = "render_pass s"
  obtain e' ecalls' where ex':
    "apply_queue apply_executing_update (executingQueue ?s1) (batchExecuting ?s1) = (e', ecalls')"
    by force
  have at': "apply_queue apply_attempts_update (attemptsQueue ?s1) (retryAttempts ?s1) = (a, [])"
    by (simp add: render_pass_fields [OF ex at])
  from render_pass_fields [OF ex' at'] show ?thesis
    by (simp add: render_passes_def)
qed


lemma executing_kept:
  "apply_queue apply_executing_update q e = (e', calls) \<Longrightarrow>
   \<forall>b. ExecutingSet b \<notin> set q \<Longrightarrow> e' = e"
proof (induction q arbitrary: e e' calls)
  case Nil
  then show ?case by simp
next
  case (Cons u q)
  obtain e1 c1 where u: "apply_executing_update u e = (e1, c1)" by force
  obtain e2 c2 where q: "apply_queue apply_executing_update q e1 = (e2, c2)" by force
  from Cons.prems u q have "e' = e2" by simp
  moreover from Cons.prems(2) u have "e1 = e" by (cases u) auto
  moreover from Cons.prems(2) have "\<forall>b. ExecutingSet b \<notin> set q" by simp
  ultimately show ?case using Cons.IH [OF q] by simp
qed

text \<open>What a render leaves: the counters after the queued attempt updates, the executing
  flag after the queued executing updates, and empty queues but for the clearing that the
  effect asks for.\<close>

lemma render_passes_fields:
  assumes ex: "apply_queue apply_executing_update (executingQueue s) (batchExecuting s) = (e, ecalls)"
    and at: "apply_queue apply_attempts_update (attemptsQueue s) (retryAttempts s) = (a, acalls)"
  shows "retryAttempts (render_passes s) = a"
    and "batchExecuting (render_passes s) = e"
    and "listening (render_passes s) = listening s"
proof -
  let ?s1 = "render_pass s"
  obtain e' ecalls' where ex':
    "apply_queue apply_executing_update (executingQueue ?s1) (batchExecuting ?s1) = (e', ecalls')"
    by force
  have at': "apply_queue apply_attempts_update (attemptsQueue ?s1) (retryAttempts ?s1) = (a, [])"
    by (simp add: render_pass_fields [OF ex at])
  have "\<forall>b. ExecutingSet b \<notin> set (executingQueue ?s1)"
    using attempts_calls [OF at] by (simp add: render_pass_fields [OF ex at])
  from executing_kept [OF ex' this] have "e' = e"
    by (simp add: render_pass_fields [OF ex at])
  with render_pass_fields [OF ex' at'] render_pass_fields(6) [OF ex at]
  show "retryAttempts (render_passes s) = a"
    and "batchExecuting (render_passes s) = e"
    and "listening (render_passes s) = listening s"
    by (simp_all add: render_passes_def)
qed

lemma timers_started_bound:
  assumes "no_reset_pending s"
  shows "int (timers_started_in_render h s)
           \<le> attempts_of (retryAttempts (render_passes s)) h - attempts_of (retryAttempts s) h"
proof -
  obtain e ecalls where ex:
    "apply_queue apply_executing_update (executingQueue s) (batchExecuting s) = (e, ecalls)"
    by force
  obtain a acalls where at:
    "apply_queue apply_attempts_update (attemptsQueue s) (retryAttempts s) = (a, acalls)"
    by force
  let ?s1 = "render_pass s"
  obtain e' ecalls' where ex':
    "apply_queue apply_executing_update (executingQueue ?s1) (batchExecuting ?s1) = (e', ecalls')"
    by force
  from assms have "ecalls = []"
    using executing_calls_no_probe [OF ex] by (simp add: no_reset_pending_def)
  with assms have first: "filter (sets_timer_of h) (timersQueue (render_executing s)) = []"
    by (simp add: render_executing_fields [OF ex] no_reset_pending_def no_timer_set)
  have "filter (sets_timer_of h) (timersQueue ?s1) = []"
    using attempts_calls [OF at] by (simp add: render_pass_fields [OF ex at] no_timer_set)
  then have second:
    "length (filter (sets_timer_of h) (timersQueue (render_executing ?s1)))
       \<le> length (filter (probes_host h) (concat (map to_executing acalls)))"
    using executing_calls [OF ex', of h]
    by (simp add: render_executing_fields [OF ex'] render_pass_fields [OF ex at])
  from assms have "AttemptsClear \<notin> set (attemptsQueue s)"
    by (simp add: no_reset_pending_def)
  from attempts_growth [OF at this, of h] first second show ?thesis
    by (simp add: timers_started_in_render_def render_passes_fields [OF ex at])
qed

subsection \<open>The attempt limit\<close>

lemma list_all_update:
  "list_all P al \<Longrightarrow> P (k, v) \<Longrightarrow> list_all P (AList.update k v al)"
  by (induction al) auto

lemma counters_below:
  assumes "list_all (\<lambda>(h, n). n \<le> m) a" and "0 \<le> m"
  shows "attempts_of a h \<le> m"
proof (cases "map_of a h")
  case None
  with assms(2) show ?thesis by (simp add: attempts_of_def)
next
  case (Some n)
  then have "(h, n) \<in> set a" by (rule map_of_SomeD)
  with assms(1) have "n \<le> m" by (auto simp: list_all_iff)
  with Some show ?thesis by (simp add: attempts_of_def)
qed

lemma attempts_under_limit:
  assumes "apply_queue apply_attempts_update q a = (a', calls)"
    and "list_all (made_under m) q" and "list_all (\<lambda>(h, n). n \<le> m) a" and "0 < m"
  shows "list_all (\<lambda>(h, n). n \<le> m) a'"
  using assms
proof (induction q arbitrary: a a' calls)
  case Nil
  then show ?case by simp
next
  case (Cons u q)
  obtain a1 c1 where u: "apply_attempts_update u a = (a1, c1)" by force
  obtain a2 c2 where q: "apply_queue apply_attempts_update q a1 = (a2, c2)" by force
  from Cons.prems(1) u q have a': "a' = a2" by simp
  have "list_all (\<lambda>(h, n). n \<le> m) a1"
  proof (cases u)
    case AttemptsClear
    with u show ?thesis by auto
  next
    case (AttemptsCheck h i cap)
    with Cons.prems(2) have "cap = m" by simp
    with u AttemptsCheck Cons.prems(3,4) show ?thesis
      by (auto simp: Let_def intro!: list_all_update split: if_splits)
  qed
  moreover from Cons.prems(2) have "list_all (made_under m) q" by simp
  ultimately show ?case
    using Cons.IH [OF q _ _ Cons.prems(4)] a' by simp
qed

lemma render_attempts_eq:
  assumes "apply_queue apply_attempts_update (attemptsQueue s) (retryAttempts s) = (a, acalls)"
  shows "retryAttempts (render s) = a"
    and "attemptsQueue (render s) = [] \<or> attemptsQueue (render s) = [AttemptsClear]"
proof -
  obtain e ecalls where ex:
    "apply_queue apply_executing_update (executingQueue s) (batchExecuting s) = (e, ecalls)"
    by force
  show "retryAttempts (render s) = a"
    by (simp add: render_def Let_def render_passes_fields [OF ex assms])
  show "attemptsQueue (render s) = [] \<or> attemptsQueue (render s) = [AttemptsClear]"
    using render_passes_quiescent [of s] by (simp add: render_def Let_def)
qed

lemma listener_calls:
  "\<not> list_ex is_probe (concat (map to_executing (batch_result_listener cs r)))"
  "ExecutingSet b \<notin> set (concat (map to_executing (batch_result_listener cs r)))"
  "\<not> list_ex is_timer_set (concat (map to_timers (batch_result_listener cs r)))"
  "list_all (made_under (retryMaxAttempts cs))
     (concat (map to_attempts (batch_result_listener cs r)))"
  "AttemptsClear \<notin> set (concat (map to_attempts (batch_result_listener cs r)))"
  by (auto simp: batch_result_listener_def Let_def split: option.splits)

lemma step_limit_in_force:
  assumes "0 < m" and "limit_in_force m s" and "under_limit m e"
  shows "limit_in_force m (step e s)"
proof (cases e)
  case Render
  obtain a acalls where at:
    "apply_queue apply_attempts_update (attemptsQueue s) (retryAttempts s) = (a, acalls)"
    by force
  from attempts_under_limit [OF at] assms(1,2)
  have "list_all (\<lambda>(h, n). n \<le> m) a" by (simp add: limit_in_force_def)
  with render_attempts_eq [OF at] Render show ?thesis
    by (auto simp: limit_in_force_def)
next
  case (BatchResult cs r)
  with assms(3) have "retryMaxAttempts cs = m" by simp
  with assms(2) BatchResult listener_calls(4) [of cs r] show ?thesis
    by (simp add: limit_in_force_def deliver_result_def)
qed (use assms(2) in \<open>simp_all add: limit_in_force_def batch_start_def countdown_tick_def
      handleCancel_def cleanupBatchExecution_def retry_disabled_effect_def\<close>)

lemma run_limit_in_force:
  "0 < m \<Longrightarrow> limit_in_force m s \<Longrightarrow> \<forall>e\<in>set es. under_limit m e \<Longrightarrow>
   limit_in_force m (run es s)"
  by (induction es arbitrary: s) (simp_all add: step_limit_in_force)

subsection \<open>Between two resets\<close>

lemma render_no_reset_pending:
  assumes "no_reset_pending s"
  shows "render s = render_passes s" and "no_reset_pending (render s)"
proof -
  obtain e ecalls where ex:
    "apply_queue apply_executing_update (executingQueue s) (batchExecuting s) = (e, ecalls)"
    by force
  obtain a acalls where at:
    "apply_queue apply_attempts_update (attemptsQueue s) (retryAttempts s) = (a, acalls)"
    by force
  from assms have "ExecutingSet True \<notin> set (executingQueue s)"
    by (simp add: no_reset_pending_def)
  from executing_value [OF ex this] have "e \<Longrightarrow> batchExecuting s" .
  then show same: "render s = render_passes s"
    by (auto simp: render_def Let_def render_passes_fields [OF ex at])
  show "no_reset_pending (render s)"
    using render_passes_quiescent [of s] by (simp add: same no_reset_pending_def)
qed

lemma step_between_resets:
  assumes "no_reset_pending s" and "no_reset e"
  shows "no_reset_pending (step e s)"
    and "int (if e = Render then timers_started_in_render h s else 0)
           + attempts_of (retryAttempts s) h \<le> attempts_of (retryAttempts (step e s)) h"
proof -
  show "no_reset_pending (step e s)"
  proof (cases e)
    case Render
    with render_no_reset_pending(2) [OF assms(1)] show ?thesis by simp
  next
    case (BatchResult cs r)
    with assms(1) show ?thesis
      by (auto simp: no_reset_pending_def deliver_result_def batch_result_listener_def Let_def
          split: option.splits)
  qed (use assms in \<open>simp_all add: no_reset_pending_def countdown_tick_def
        handleCancel_def cleanupBatchExecution_def\<close>)
  show "int (if e = Render then timers_started_in_render h s else 0)
           + attempts_of (retryAttempts s) h \<le> attempts_of (retryAttempts (step e s)) h"
  proof (cases e)
    case Render
    with timers_started_bound [OF assms(1), of h] render_no_reset_pending(1) [OF assms(1)]
    show ?thesis by simp
  qed (simp_all add: deliver_result_def countdown_tick_def batch_start_def
        handleCancel_def cleanupBatchExecution_def retry_disabled_effect_def)
qed

lemma run_between_resets:
  assumes "no_reset_pending s" and "\<forall>e\<in>set es. no_reset e"
  shows "int (timer_starts h es s) + attempts_of (retryAttempts s) h
           \<le> attempts_of (retryAttempts (run es s)) h"
  using assms
proof (induction es arbitrary: s)
  case Nil
  then show ?case by simp
next
  case (Cons e es)
  from Cons.prems have e: "no_reset e" and es: "\<forall>e\<in>set es. no_reset e" by simp_all
  note next_page = step_between_resets(1) [OF Cons.prems(1) e]
  note paid = step_between_resets(2) [OF Cons.prems(1) e, of h]
  from Cons.IH [OF next_page es] paid show ?case by simp
qed

subsection \<open>The resets\<close>

lemma attempts_cleared_last:
  "fst (apply_queue apply_attempts_update (q @ [AttemptsClear]) a) = []"
proof (induction q arbitrary: a)
  case Nil
  show ?case by simp
next
  case (Cons u q)
  obtain a1 c1 where u: "apply_attempts_update u a = (a1, c1)" by force
  obtain a2 c2 where q:
    "apply_queue apply_attempts_update (q @ [AttemptsClear]) a1 = (a2, c2)" by force
  from Cons.IH [of a1] q have "a2 = []" by simp
  with u q show ?case by simp
qed

lemma retry_disabled_clears:
  "retryAttempts (run [RetryDisabled, Render] s) = []"
proof -
  let ?s1 = "retry_disabled_effect s"
  obtain a acalls where at:
    "apply_queue apply_attempts_update (attemptsQueue ?s1) (retryAttempts ?s1) = (a, acalls)"
    by force
  have "attemptsQueue ?s1 = attemptsQueue s @ [AttemptsClear]"
    by (simp add: retry_disabled_effect_def)
  with at attempts_cleared_last [of "attemptsQueue s" "retryAttempts ?s1"] have "a = []"
    by simp
  with render_attempts_eq(1) [OF at] show ?thesis by simp
qed

lemma batch_start_clears:
  assumes "\<not> batchExecuting s" and "executingQueue s = []"
  shows "retryAttempts (run [BatchStart, Render, Render] s) = []"
    and "batchExecuting (run [BatchStart, Render, Render] s)"
proof -
  let ?s1 = "batch_start s"
  obtain a acalls where at:
    "apply_queue apply_attempts_update (attemptsQueue ?s1) (retryAttempts ?s1) = (a, acalls)"
    by force
  have ex: "apply_queue apply_executing_update (executingQueue ?s1) (batchExecuting ?s1) = (True, [])"
    using assms by (simp add: batch_start_def)
  have passes: "batchExecuting (render_passes ?s1)"
    by (simp add: render_passes_fields [OF ex at])
  have "\<not> batchExecuting ?s1" using assms by (simp add: batch_start_def)
  with passes have r1: "render ?s1 = enqueue_all [ToAttempts AttemptsClear] (render_passes ?s1)"
    by (auto simp: render_def Let_def)
  let ?s2 = "render ?s1"
  have q2: "attemptsQueue ?s2 = [AttemptsClear]" "executingQueue ?s2 = []"
    and b2: "batchExecuting ?s2"
    using render_passes_quiescent [of ?s1] passes by (simp_all add: r1)
  have at2: "apply_queue apply_attempts_update (attemptsQueue ?s2) (retryAttempts ?s2) = ([], [])"
    by (simp add: q2)
  have ex2: "apply_queue apply_executing_update (executingQueue ?s2) (batchExecuting ?s2) = (True, [])"
    by (simp add: q2 b2)
  show "retryAttempts (run [BatchStart, Render, Render] s) = []"
    using render_attempts_eq(1) [OF at2] by simp
  have "batchExecuting (render ?s2) = batchExecuting (render_passes ?s2)"
    by (simp add: render_def Let_def)
  with render_passes_fields(2) [OF ex2 at2]
  show "batchExecuting (run [BatchStart, Render, Render] s)"
    by simp
qed

subsection \<open>The claims on the retry timers\<close>

text \<open>
  C4. After a result that is an authentication failure the host should have no retry
  timer, whatever came before. The page does not keep this when the result arrives before
  the page has rendered an earlier, transient failure of the same host: the listener
  answers the authentication failure by deleting the timer at once, the attempt check of
  the earlier result starts the timer during the render, and so the timer is there after
  the render (30 seconds) and counts down (29).
\<close>

theorem retry_timer_survives_authentication_failure:
  "batch_result_listener retry_unbounded denied_result =
     [ToTimers (TimersDeleteHost (host denied_result))] \<and>
   map_of (retryTimers (run late_denial executing_page)) (host denied_result) = Some 30 \<and>
   map_of (retryTimers (run (late_denial @ [CountdownTick True, Render]) executing_page))
     (host denied_result) = Some 29"
  by code_simp

text \<open>
  C5 as stated fails at a batch run in which retrying is switched off and on again: under
  a limit of two the page starts four retry timers for one host in one batch run.
\<close>

theorem toggled_run_exceeds_limit:
  "batch_runs toggled_run = 1 \<and>
   retryMaxAttempts retry_twice = 2 \<and>
   timer_starts (host refused_result) toggled_run idle_page = 4"
  by code_simp

text \<open>
  C5, amended. The attempt counters are cleared when retrying is switched off and when a
  batch run starts on a page that is not executing. Under a limit \<open>m > 0\<close> no attempt counter ever exceeds \<open>m\<close>, whatever
  the page does. As long as no reset of the counters is on its way, every retry timer that
  the page starts for a host is counted by the attempt counter of that host, so between
  two resets the page starts at most \<open>m\<close> retry timers for a host, less the attempts
  already counted.
\<close>

theorem retry_attempt_limit:
  "retryAttempts (run [RetryDisabled, Render] s0) = [] \<and>
   (\<not> batchExecuting s0 \<and> executingQueue s0 = [] \<longrightarrow>
      retryAttempts (run [BatchStart, Render, Render] s0) = []) \<and>
   (0 < m \<and> limit_in_force m s \<and> (\<forall>e\<in>set es. under_limit m e) \<longrightarrow>
      attempts_of (retryAttempts (run es s)) h \<le> m) \<and>
   (0 < m \<and> limit_in_force m s \<and> no_reset_pending s \<and>
    (\<forall>e\<in>set es. under_limit m e \<and> no_reset e) \<longrightarrow>
      int (timer_starts h es s) + attempts_of (retryAttempts s) h \<le> m)"
proof -
  have counters: "attempts_of (retryAttempts (run es s)) h \<le> m"
    if "0 < m" "limit_in_force m s" "\<forall>e\<in>set es. under_limit m e"
  proof -
    from run_limit_in_force [OF that] have "list_all (\<lambda>(h, n). n \<le> m) (retryAttempts (run es s))"
      by (simp add: limit_in_force_def)
    with that(1) show ?thesis by (simp add: counters_below)
  qed
  have starts: "int (timer_starts h es s) + attempts_of (retryAttempts s) h \<le> m"
    if "0 < m" "limit_in_force m s" "no_reset_pending s"
      "\<forall>e\<in>set es. under_limit m e \<and> no_reset e"
  proof -
    from that(4) have "\<forall>e\<in>set es. under_limit m e" and quiet: "\<forall>e\<in>set es. no_reset e"
      by simp_all
    from counters [OF that(1,2) this(1)] run_between_resets [OF that(3) quiet, of h]
    show ?thesis by simp
  qed
  from counters starts retry_disabled_clears [of s0] batch_start_clears(1) [of s0]
  show ?thesis by blast
qed

theorem retry_attempt_limit_witness:
  "limit_in_force 2 started_page \<and> no_reset_pending started_page \<and>
   timer_starts (host refused_result) three_refusals started_page = 2 \<and>
   int (timer_starts (host refused_result) three_refusals started_page)
     + attempts_of (retryAttempts started_page) (host refused_result) \<le> 2 \<and>
   attempts_of (retryAttempts (run three_refusals started_page)) (host refused_result) \<le> 2 \<and>
   retryAttempts (run [BatchStart, Render, Render] idle_page) = [] \<and>
   retryAttempts (run [RetryDisabled, Render] idle_page) = []"
proof -
  have h1: "(0::int) < 2" by simp
  have h2: "limit_in_force 2 started_page" by code_simp
  have h3: "no_reset_pending started_page" by code_simp
  have h4: "\<forall>e\<in>set three_refusals. under_limit 2 e \<and> no_reset e"
    by (simp add: three_refusals_def retry_twice_def)
  then have h5: "\<forall>e\<in>set three_refusals. under_limit 2 e" by simp
  have h6: "\<not> batchExecuting idle_page \<and> executingQueue idle_page = []"
    by (simp add: idle_page_def)
  have count: "timer_starts (host refused_result) three_refusals started_page = 2"
    by code_simp
  from retry_attempt_limit [of idle_page 2 started_page three_refusals "host refused_result"]
    h1 h2 h3 h4 h5 h6 count
  show ?thesis by blast
qed

section \<open>Properties of the stored results and of the request\<close>


text \<open>
  C1 as stated fails at the record that \<^verbatim>\<open>handleBatchExecute\<close> produces for a host
  that is still executing: it has neither a result nor an error, and the validator accepts
  it.
\<close>

theorem pending_record_both_null:
  "resultsWithTimestamp (ascii ''2024-01-01T00:00:00.000Z'')
     (ascii ''2024-01-01T00:00:00.001Z'') [first_host] = [pending_record] \<and>
   isValidBatchCommandResult pending_record \<and>
   get_prop pending_record ''result'' = JNull \<and>
   get_prop pending_record ''error'' = JNull"
  by (simp add: resultsWithTimestamp_def initialResults_def isValidBatchCommandResult_def
      first_host_def pending_record_def)

text \<open>
  C1, amended. Every record that \<^verbatim>\<open>isValidBatchCommandResult\<close> accepts has a string
  \<^verbatim>\<open>host\<close>, a \<^verbatim>\<open>result\<close> that is \<^verbatim>\<open>null\<close> or a valid command result, and an
  \<^verbatim>\<open>error\<close> that is \<^verbatim>\<open>null\<close> or a string, each checked on its own; and every
  initial record of a batch is accepted, has both fields \<^verbatim>\<open>null\<close>, and carries the
  address of its host.
\<close>

theorem batch_command_result_fields:
  "(isValidBatchCommandResult data \<longrightarrow>
      typeof (get_prop data ''host'') = ''string'' \<and>
      (get_prop data ''result'' = JNull \<or> isValidCommandResult (get_prop data ''result'')) \<and>
      (get_prop data ''error'' = JNull \<or> typeof (get_prop data ''error'') = ''string'')) \<and>
   (\<forall>r \<in> set (resultsWithTimestamp now now' hosts).
      isValidBatchCommandResult r \<and>
      get_prop r ''result'' = JNull \<and> get_prop r ''error'' = JNull) \<and>
   map (\<lambda>r. get_prop r ''host'') (resultsWithTimestamp now now' hosts) =
     map (\<lambda>h. JString (ip h)) hosts"
  by (auto simp: resultsWithTimestamp_def initialResults_def isValidBatchCommandResult_def)


theorem batch_command_result_fields_witness:
  "isValidBatchCommandResult record_with_both \<and>
   typeof (get_prop record_with_both ''host'') = ''string'' \<and>
   get_prop record_with_both ''result'' \<noteq> JNull \<and>
   get_prop record_with_both ''error'' \<noteq> JNull \<and>
   list_all (\<lambda>r. isValidBatchCommandResult r \<and>
               get_prop r ''result'' = JNull \<and> get_prop r ''error'' = JNull)
     (resultsWithTimestamp (ascii ''2024-01-01T00:00:00.000Z'')
        (ascii ''2024-01-01T00:00:00.001Z'') two_hosts) \<and>
   length (resultsWithTimestamp (ascii ''2024-01-01T00:00:00.000Z'')
        (ascii ''2024-01-01T00:00:00.001Z'') two_hosts) = 2"
proof -
  have accepted: "isValidBatchCommandResult record_with_both"
    by (simp add: record_with_both_def isValidBatchCommandResult_def isValidCommandResult_def)
  have both: "get_prop record_with_both ''result'' \<noteq> JNull"
    "get_prop record_with_both ''error'' \<noteq> JNull"
    by (simp_all add: record_with_both_def)
  have two: "length (resultsWithTimestamp (ascii ''2024-01-01T00:00:00.000Z'')
        (ascii ''2024-01-01T00:00:00.001Z'') two_hosts) = 2"
    by (simp add: resultsWithTimestamp_def initialResults_def two_hosts_def)
  from accepted both two
    batch_command_result_fields [of record_with_both "ascii ''2024-01-01T00:00:00.000Z''"
      "ascii ''2024-01-01T00:00:00.001Z''" two_hosts]
  show ?thesis
    unfolding list_all_iff by blast
qed

text \<open>
  C6. The request handed to \<^verbatim>\<open>execute_batch_commands\<close> has seven properties, and
  \<^verbatim>\<open>retry_max_attempts\<close> is not one of them: reading it yields \<^verbatim>\<open>undefined\<close>,
  whatever the settings are.
\<close>

theorem request_without_retry_max_attempts:
  "object_keys (execute_batch_commands_request hosts sshConfig cmd max_concurrent
      retryFailedHostsNow retryIntervalNow disableCommandValidation) =
     [''hosts'', ''config_template'', ''command'', ''max_concurrent'',
      ''retry_failed_hosts'', ''retry_interval'', ''skip_validation''] \<and>
   get_prop (execute_batch_commands_request hosts sshConfig cmd max_concurrent
      retryFailedHostsNow retryIntervalNow disableCommandValidation)
     ''retry_max_attempts'' = JUndefined"
  by (simp add: execute_batch_commands_request_def)

section \<open>Properties of the estimate\<close>

lemma retry_delay_sum: "(\<Sum>i = 1..k. retry_delay base i) = base * (2 ^ k - 1)"
proof (induction k)
  case 0
  show ?case by simp
next
  case (Suc k)
  then show ?case by (simp add: retry_delay_def algebra_simps)
qed

text \<open>
  C7 as stated fails at the default settings (three attempts, base 1): the estimate adds
  3 seconds of delay, not \<open>1 * (2^3 - 1) = 7\<close>.
\<close>

theorem delaySum_default_settings:
  "delaySum 3 (delayBase 1) = 3 \<and> delaySum 3 (delayBase 1) \<noteq> delayBase 1 * (2 ^ 3 - 1)"
  by (simp add: delaySum_def delayBase_def)

text \<open>
  C7, amended. With \<open>n \<ge> 1\<close> attempts and the delay \<open>base * 2^(i-1)\<close> before the
  \<open>i\<close>-th retry, the worst-case estimate adds the delays of the \<open>n - 1\<close> retries that lie
  between the attempts: in total \<open>base * (2^(n-1) - 1)\<close> seconds.
\<close>

theorem delaySum_geometric:
  assumes "1 \<le> n"
  shows "delaySum n base = (\<Sum>i = 1..nat n - 1. retry_delay base i) \<and>
         delaySum n base = base * (2 ^ (nat n - 1) - 1)"
proof (cases "n = 1")
  case True
  then show ?thesis by (simp add: delaySum_def)
next
  case False
  with assms have "n > 1" by simp
  then have "nat (n - 1) = nat n - 1" by simp
  with \<open>n > 1\<close> retry_delay_sum [of base "nat n - 1"] show ?thesis
    by (simp add: delaySum_def)
qed

theorem delaySum_geometric_witness:
  "delaySum 3 1 = (\<Sum>i = 1..nat 3 - 1. retry_delay 1 i) \<and>
   delaySum 3 1 = 1 * (2 ^ (nat 3 - 1) - 1) \<and> delaySum 3 1 = 3"
proof -
  have "(1::int) \<le> 3" by simp
  from delaySum_geometric [OF this, of 1] show ?thesis
    by (simp add: delaySum_def)
qed

section \<open>Properties of the host validation\<close>

text \<open>The two host checks on a few strings.\<close>

lemma validator_examples:
  "validateIp (ascii ''10.0.0.1'')"
  "\<not> validateIp (ascii ''256.0.0.1'')"
  "\<not> validateIp (ascii ''01.2.3.4'')"
  "\<not> validateIp (ascii ''1.2.3'')"
  "\<not> validateIp (ascii ''1.2.3.4.5'')"
  "validateHostname (ascii ''localhost'')"
  "\<not> validateHostname (ascii ''-bad.example'')"
  "\<not> validateHostname (ascii ''a..b'')"
  "\<not> validateHostname []"
  by code_simp+

lemma split_on_not_Nil: "split_on sep s \<noteq> []"
  by (induction s) (auto split: list.splits)

lemma split_on_member:
  "c \<in> set s \<Longrightarrow> c \<noteq> sep \<Longrightarrow> \<exists>part \<in> set (split_on sep s). c \<in> set part"
proof (induction s)
  case Nil
  then show ?case by simp
next
  case (Cons d ds)
  obtain part parts where sp: "split_on sep ds = part # parts"
    using split_on_not_Nil [of sep ds] by (cases "split_on sep ds") auto
  show ?case
  proof (cases "c = d")
    case True
    with Cons.prems sp show ?thesis by simp
  next
    case False
    with Cons.prems have "c \<in> set ds" by simp
    from Cons.IH [OF this Cons.prems(2)] sp show ?thesis by auto
  qed
qed


lemma ipRegex_test_digits:
  assumes "ipRegex_test s" and "c \<in> set s" and "c \<noteq> dot"
  shows "is_digit c"
proof -
  from split_on_member [OF assms(2,3)] obtain part
    where part: "part \<in> set (split_on dot s)" "c \<in> set part" by blast
  from assms(1) have "\<forall>p \<in> set (split_on dot s). \<forall>d \<in> set p. is_digit d"
    unfolding ipRegex_test_def list_all_iff by blast
  with part show ?thesis by blast
qed

lemma hostname_label_chars:
  assumes "hostname_label l" and "c \<in> set l"
  shows "is_alnum c \<or> c = hyphen"
proof (cases l)
  case Nil
  with assms(2) show ?thesis by simp
next
  case (Cons d ds)
  with assms(1) have d: "is_alnum d"
    and rest: "ds = [] \<or> (list_all (\<lambda>e. is_alnum e \<or> e = hyphen) (butlast ds) \<and> is_alnum (last ds))"
    unfolding hostname_label_def by auto
  show ?thesis
  proof (cases "c = d")
    case True
    with d show ?thesis by simp
  next
    case False
    with assms(2) Cons have cds: "c \<in> set ds" by simp
    then have "ds \<noteq> []" by auto
    with rest have mid: "\<forall>e \<in> set (butlast ds). is_alnum e \<or> e = hyphen"
      and lst: "is_alnum (last ds)"
      unfolding list_all_iff by simp_all
    from \<open>ds \<noteq> []\<close> have "butlast ds @ [last ds] = ds" by simp
    then have "set ds = set (butlast ds) \<union> {last ds}"
      using set_append [of "butlast ds" "[last ds]"] by simp
    with cds have "c \<in> set (butlast ds) \<or> c = last ds" by blast
    with mid lst show ?thesis by blast
  qed
qed

lemma hostnameRegex_test_chars:
  assumes "hostnameRegex_test s" and "c \<in> set s" and "c \<noteq> dot"
  shows "is_alnum c \<or> c = hyphen"
proof -
  from split_on_member [OF assms(2,3)] obtain part
    where part: "part \<in> set (split_on dot s)" "c \<in> set part" by blast
  from assms(1) have "\<forall>p \<in> set (split_on dot s). hostname_label p"
    unfolding hostnameRegex_test_def list_all_iff by blast
  with part have "hostname_label part" by blast
  from hostname_label_chars [OF this part(2)] show ?thesis .
qed


lemma colon_class: "colon \<noteq> dot" "\<not> is_digit colon" "\<not> is_alnum colon" "colon \<noteq> hyphen"
  by (simp_all add: colon_def dot_def is_digit_def is_alnum_def hyphen_def)

lemma colon_not_in_batch: "colon \<notin> set (ascii ''batch'')"
  by (simp add: ascii_def colon_def)

lemma validateIp_no_colon: "colon \<in> set s \<Longrightarrow> \<not> validateIp s"
  using ipRegex_test_digits [of s colon] colon_class
  unfolding validateIp_def by (cases "ipRegex_test s") simp_all

lemma validateHostname_no_colon: "colon \<in> set s \<Longrightarrow> \<not> validateHostname s"
  using hostnameRegex_test_chars [of s colon] colon_class
  unfolding validateHostname_def by (cases "hostnameRegex_test s") simp_all


lemma ipv6_loopback_checks:
  "\<not> validateIp (ascii ''::1'')" "\<not> validateHostname (ascii ''::1'')"
  by code_simp+

lemma example_trims:
  "length (trim (ascii ''root'')) \<noteq> 0"
  "length (trim (ascii ''/home/op/.ssh/id_ed25519'')) \<noteq> 0"
  by code_simp+

text \<open>
  C8 as stated fails at the IPv6 loopback literal \<^verbatim>\<open>::1\<close>: both host checks reject
  it, and a configuration that is otherwise complete is rejected for its host alone.
\<close>

theorem ipv6_literal_rejected:
  "\<not> validateIp (ascii ''::1'') \<and> \<not> validateHostname (ascii ''::1'') \<and>
   validateSshConfig
     \<lparr>cfg_host = ascii ''::1'', cfg_port = 22, username = ascii ''root'',
      auth_method = ascii ''key'', password = None,
      key_path = Some (ascii ''/home/op/.ssh/id_ed25519''), ppk_path = None,
      passwordMinLength = None\<rparr> = \<lparr>valid = False, errors = [InvalidHost]\<rparr>"
proof -
  have "validatePort 22"
    by (simp add: validatePort_def)
  moreover have "ascii ''::1'' \<noteq> []" "ascii ''::1'' \<noteq> ascii ''batch''"
    "ascii ''root'' \<noteq> []" "ascii ''/home/op/.ssh/id_ed25519'' \<noteq> []"
    "ascii ''key'' \<noteq> ascii ''password''" "ascii ''key'' \<noteq> ascii ''ppk''"
    by (simp_all add: ascii_def)
  ultimately show ?thesis
    using ipv6_loopback_checks example_trims
    unfolding validateSshConfig_def Let_def by (simp split del: if_split)
qed

text \<open>
  C8, amended. A host string that contains a colon, as every IPv6 literal does, is neither
  an address for \<^verbatim>\<open>validateIp\<close> nor a name for \<^verbatim>\<open>validateHostname\<close>, and
  \<^verbatim>\<open>validateSshConfig\<close> reports it as an invalid host: the validation accepts
  dotted IPv4 addresses and DNS names only.
\<close>

theorem host_with_colon_rejected:
  assumes "colon \<in> set (cfg_host config)"
  shows "\<not> validateIp (cfg_host config) \<and> \<not> validateHostname (cfg_host config) \<and>
         InvalidHost \<in> set (errors (validateSshConfig config)) \<and>
         \<not> valid (validateSshConfig config)"
proof -
  have ip: "\<not> validateIp (cfg_host config)"
    using assms by (rule validateIp_no_colon)
  have hn: "\<not> validateHostname (cfg_host config)"
    using assms by (rule validateHostname_no_colon)
  from assms have "cfg_host config \<noteq> []" and "cfg_host config \<noteq> ascii ''batch''"
    using colon_not_in_batch by auto
  with ip hn show ?thesis
    unfolding validateSshConfig_def Let_def by (simp split del: if_split)
qed

theorem host_with_colon_rejected_witness:
  "colon \<in> set (cfg_host ipv6_config) \<and>
   \<not> validateIp (cfg_host ipv6_config) \<and> \<not> validateHostname (cfg_host ipv6_config) \<and>
   InvalidHost \<in> set (errors (validateSshConfig ipv6_config)) \<and>
   \<not> valid (validateSshConfig ipv6_config) \<and>
   validateIp (ascii ''192.168.0.1'') \<and> validateHostname (ascii ''node-1.example.org'')"
proof -
  have h: "colon \<in> set (cfg_host ipv6_config)"
    by (simp add: ipv6_config_def ascii_def colon_def)
  have ok: "validateIp (ascii ''192.168.0.1'') \<and> validateHostname (ascii ''node-1.example.org'')"
    by code_simp
  from host_with_colon_rejected [OF h] h ok show ?thesis
    by blast
qed

end
